theory Spec2Isabelle
  imports Main "HOL-Library.Word" "HOL-Library.AList"
begin

section \<open>The getBlockTemplate handler of the RPC server\<close>

text \<open>
  A shallow embedding of \<^verbatim>\<open>server/rpc/handle_get_block_template.go\<close>.
  Packages the handler calls but that are not part of the file (daghash, mstime, wire,
  mining, blockdag, util) appear as parameters or as small records of the operations the
  handler uses.
\<close>

subsection \<open>Errors\<close>

text \<open>
  Codes of \<^verbatim>\<open>rpcmodel.RPCError\<close> used by the handler. The human-readable
  message of an RPC error is not modelled.
\<close>

datatype rpcErrorCode =
    ErrRPCInvalidParameter
  | ErrRPCClientNotConnected
  | ErrRPCType
  | ErrRPCDeserialization
  | ErrRPCVerify
  | ErrRPCOutOfRange
  | ErrRPCInternal

text \<open>
  Every error the handler can return, and the runtime panics it can raise.
  The four \<^verbatim>\<open>decodeLongPollID\<close> errors are plain Go errors, told apart here by
  the place that creates them.
\<close>

datatype error =
    RPCError rpcErrorCode
  | InvalidNumberOfFields
  | InvalidParentHashesFormat
  | NewHashFromStrFailed string
  | CannotParseTimestamp string
  | AddressDecodeFailed string
  | ErrClientQuit
  | Panic string

subsection \<open>Strings: \<^verbatim>\<open>strings.Split\<close>, \<^verbatim>\<open>%d\<close>, \<^verbatim>\<open>strconv.ParseInt\<close>\<close>

text \<open>
  \<^verbatim>\<open>strings.Split(s, sep)\<close> for a one-byte separator: the fields between the
  separators, one more than there are separators; the empty string gives one empty field.
\<close>

fun Split :: "string \<Rightarrow> char \<Rightarrow> string list" where
  "Split [] sep = [[]]"
| "Split (c # cs) sep =
     (if c = sep then [] # Split cs sep
      else (case Split cs sep of
              [] \<Rightarrow> [[c]]
            | f # fs \<Rightarrow> (c # f) # fs))"

text \<open>Decimal digits of a natural number, most significant first.\<close>

fun natDecimal :: "nat \<Rightarrow> string" where
  "natDecimal n =
     (if n < 10 then [char_of (48 + n)]
      else natDecimal (n div 10) @ [char_of (48 + n mod 10)])"

declare natDecimal.simps [simp del]

text \<open>\<^verbatim>\<open>fmt.Sprintf("%d", n)\<close> for an int64 \<open>n\<close>.\<close>

definition FormatInt :: "int \<Rightarrow> string" where
  "FormatInt n = (if n < 0 then CHR ''-'' # natDecimal (nat (- n)) else natDecimal (nat n))"

definition isDigit :: "char \<Rightarrow> bool" where
  "isDigit c = (48 \<le> (of_char c :: nat) \<and> (of_char c :: nat) \<le> 57)"

fun digitsValue :: "nat \<Rightarrow> string \<Rightarrow> nat" where
  "digitsValue acc [] = acc"
| "digitsValue acc (c # cs) = digitsValue (acc * 10 + ((of_char c :: nat) - 48)) cs"

text \<open>
  \<^verbatim>\<open>strconv.ParseInt(s, 10, 64)\<close>: an optional sign, then one or more decimal
  digits, and the value has to fit an int64. \<open>None\<close> is the error return.
\<close>

definition ParseInt :: "string \<Rightarrow> int option" where
  "ParseInt s =
     (case s of
        [] \<Rightarrow> None
      | c # cs \<Rightarrow>
          (let neg = (c = CHR ''-'');
               ds = (if c = CHR ''+'' \<or> c = CHR ''-'' then cs else s)
           in if ds = [] \<or> \<not> list_all isDigit ds then None
              else (let un = digitsValue 0 ds
                    in if \<not> neg \<and> un \<ge> 2 ^ 63 then None
                       else if neg \<and> un > 2 ^ 63 then None
                       else Some (if neg then - int un else int un))))"

subsection \<open>Hashes, addresses, times\<close>

text \<open>
  The operations of package daghash the handler uses, over a type \<open>'h\<close> of hashes:
  the constant \<^verbatim>\<open>HashSize\<close>, \<^verbatim>\<open>Hash.String\<close> and \<^verbatim>\<open>NewHashFromStr\<close>
  (\<open>Inl\<close> its error text).
\<close>

record 'h daghash =
  HashSize :: nat
  HashString :: "'h \<Rightarrow> string"
  NewHashFromStr :: "string \<Rightarrow> string + 'h"

text \<open>
  Modelled from the spec: \<^verbatim>\<open>daghash.JoinHashesStrings\<close> is not part of the file;
  the tip-fingerprint is the concatenation of the hashes' strings, with the separator
  between them.
\<close>

fun JoinHashesStrings :: "'h daghash \<Rightarrow> 'h list \<Rightarrow> string \<Rightarrow> string" where
  "JoinHashesStrings d [] sep = []"
| "JoinHashesStrings d [h] sep = HashString d h"
| "JoinHashesStrings d (h # hs) sep = HashString d h @ sep @ JoinHashesStrings d hs sep"

text \<open>
  Modelled from the spec: \<^verbatim>\<open>daghash.AreEqual\<close> is not part of the file; two hash
  slices are equal when they have the same hashes in the same order.
\<close>

definition AreEqual :: "'h list \<Rightarrow> 'h list \<Rightarrow> bool" where
  "AreEqual first second = (first = second)"

text \<open>A \<^verbatim>\<open>util.Address\<close>, of which the handler only reads \<^verbatim>\<open>String()\<close>.\<close>

datatype address = Address (String: string)

text \<open>
  Modelled from the spec: \<^verbatim>\<open>mstime.Time\<close> is not part of the file; it is an instant
  with millisecond resolution, here the milliseconds since the Unix epoch. The zero value
  of a Go time is the first instant of year 1.
\<close>

type_synonym mstime = int

definition zeroTime :: mstime where
  "zeroTime = - 62135596800000"

definition IsZero :: "mstime \<Rightarrow> bool" where
  "IsZero t = (t = zeroTime)"

definition UnixMilliseconds :: "mstime \<Rightarrow> int" where
  "UnixMilliseconds t = t"

definition UnixSeconds :: "mstime \<Rightarrow> int" where
  "UnixSeconds t = t div 1000"

text \<open>\<^verbatim>\<open>t.Add(d)\<close> for a duration of \<open>ms\<close> milliseconds, and \<^verbatim>\<open>t.After(u)\<close>.\<close>

definition Add :: "mstime \<Rightarrow> int \<Rightarrow> mstime" where
  "Add t ms = t + ms"

definition After :: "mstime \<Rightarrow> mstime \<Rightarrow> bool" where
  "After t u = (t > u)"

definition gbtRegenerateSeconds :: int where
  "gbtRegenerateSeconds = 60"

subsection \<open>The long poll ID\<close>

text \<open>
  The verb \<^verbatim>\<open>%s\<close> prints an address with its \<^verbatim>\<open>String()\<close>, and a nil
  interface (\<open>None\<close>) as \<^verbatim>\<open>%!s(<nil>)\<close>.
\<close>

definition formatAddress :: "address option \<Rightarrow> string" where
  "formatAddress a = (case a of None \<Rightarrow> ''%!s(<nil>)'' | Some addr \<Rightarrow> String addr)"

definition encodeLongPollID ::
  "'h daghash \<Rightarrow> 'h list \<Rightarrow> address option \<Rightarrow> mstime \<Rightarrow> string" where
  "encodeLongPollID d parentHashes miningAddress lastGenerated =
     JoinHashesStrings d parentHashes [] @ ''-'' @ formatAddress miningAddress @ ''-''
       @ FormatInt (UnixSeconds lastGenerated)"

text \<open>
  The loop of \<^verbatim>\<open>decodeLongPollID\<close> over the hash string, \<^verbatim>\<open>HashSize\<close>
  characters at a time. It is entered only when the length is a multiple of
  \<^verbatim>\<open>HashSize\<close>, so each slice is in range.
\<close>

function parseParentHashes :: "'h daghash \<Rightarrow> string \<Rightarrow> error + 'h list" where
  "parseParentHashes d s =
     (if s = [] \<or> HashSize d = 0 then Inr []
      else (case NewHashFromStr d (take (HashSize d) s) of
              Inl e \<Rightarrow> Inl (NewHashFromStrFailed e)
            | Inr hash \<Rightarrow>
                (case parseParentHashes d (drop (HashSize d) s) of
                   Inl e \<Rightarrow> Inl e
                 | Inr parentHashes \<Rightarrow> Inr (hash # parentHashes))))"
  by pat_completeness auto
termination
  by (relation "measure (\<lambda>(d, s). length s)") auto

declare parseParentHashes.simps [simp del]

text \<open>
  \<^verbatim>\<open>HashSize\<close> is a positive constant in the source; a zero would make the
  remainder a division by zero.
\<close>

text \<open>The errors that \<^verbatim>\<open>decodeLongPollID\<close> returns.\<close>

fun isDecodeError :: "error \<Rightarrow> bool" where
  "isDecodeError InvalidNumberOfFields = True"
| "isDecodeError InvalidParentHashesFormat = True"
| "isDecodeError (NewHashFromStrFailed e) = True"
| "isDecodeError (CannotParseTimestamp ts) = True"
| "isDecodeError e = False"

definition decodeLongPollID :: "'h daghash \<Rightarrow> string \<Rightarrow> error + ('h list \<times> int)" where
  "decodeLongPollID d longPollID =
     (case Split longPollID CHR ''-'' of
        [parentHashesStr, ts] \<Rightarrow>
          (if HashSize d = 0 then Inl (Panic ''integer divide by zero'')
           else if length parentHashesStr mod HashSize d \<noteq> 0 then Inl InvalidParentHashesFormat
           else (case parseParentHashes d parentHashesStr of
                   Inl e \<Rightarrow> Inl e
                 | Inr parentHashes \<Rightarrow>
                     (case ParseInt ts of
                        None \<Rightarrow> Inl (CannotParseTimestamp ts)
                      | Some lastGenerated \<Rightarrow> Inr (parentHashes, lastGenerated))))
      | _ \<Rightarrow> Inl InvalidNumberOfFields)"

subsection \<open>Blocks and templates\<close>

text \<open>
  What the handler reads of \<^verbatim>\<open>wire.MsgTx\<close>: the result of \<^verbatim>\<open>TxID()\<close>, for
  each input the \<^verbatim>\<open>PreviousOutpoint.TxID\<close>, and the outcome of
  \<^verbatim>\<open>Serialize\<close> (\<open>Inl\<close> its error text). A \<^verbatim>\<open>daghash.TxID\<close> has the
  representation of a hash.
\<close>

record 'h msgTx =
  TxID :: 'h
  TxIn :: "'h list"
  Serialize :: "string + 8 word list"

record 'h blockHeader =
  Version :: int
  ParentHashes :: "'h list"
  HashMerkleRoot :: 'h
  AcceptedIDMerkleRoot :: 'h
  UTXOCommitment :: 'h
  Timestamp :: mstime
  Bits :: nat
  Nonce :: nat

record 'h msgBlock =
  Header :: "'h blockHeader"
  Transactions :: "'h msgTx list"

record 'h blockTemplate =
  Block :: "'h msgBlock"
  TxMasses :: "nat list"
  Fees :: "nat list"
  Height :: nat

subsection \<open>Rule errors and rejection strings\<close>

text \<open>
  The codes of \<^verbatim>\<open>blockdag.ErrorCode\<close> that \<^verbatim>\<open>dagErrToGBTErrString\<close> names;
  \<open>ErrOtherCode\<close> stands for every other value of the integer type.
\<close>

datatype errorCode =
    ErrDuplicateBlock
  | ErrBlockMassTooHigh
  | ErrBlockVersionTooOld
  | ErrTimeTooOld
  | ErrTimeTooNew
  | ErrDifficultyTooLow
  | ErrUnexpectedDifficulty
  | ErrHighHash
  | ErrBadMerkleRoot
  | ErrFinalityPointTimeTooOld
  | ErrNoTransactions
  | ErrNoTxInputs
  | ErrTxMassTooHigh
  | ErrBadTxOutValue
  | ErrDuplicateTxInputs
  | ErrBadTxInput
  | ErrMissingTxOut
  | ErrUnfinalizedTx
  | ErrDuplicateTx
  | ErrOverwriteTx
  | ErrImmatureSpend
  | ErrSpendTooHigh
  | ErrBadFees
  | ErrTooManySigOps
  | ErrFirstTxNotCoinbase
  | ErrMultipleCoinbases
  | ErrBadCoinbasePayloadLen
  | ErrScriptMalformed
  | ErrScriptValidation
  | ErrParentBlockUnknown
  | ErrInvalidAncestorBlock
  | ErrParentBlockNotCurrentTips
  | ErrOtherCode nat

text \<open>
  A Go \<^verbatim>\<open>error\<close> as the handler observes it: what
  \<^verbatim>\<open>errors.As(err, &ruleErr)\<close> finds (the \<^verbatim>\<open>ErrorCode\<close> of the rule error in
  the chain, if there is one) and the text of \<^verbatim>\<open>err.Error()\<close>.
\<close>

datatype goError = GoError (asRuleError: "errorCode option") (ErrorText: string)

definition dagErrToGBTErrString :: "goError \<Rightarrow> string" where
  "dagErrToGBTErrString err =
     (case asRuleError err of
        None \<Rightarrow> ''rejected: '' @ ErrorText err
      | Some code \<Rightarrow>
          (case code of
            ErrDuplicateBlock \<Rightarrow> ''duplicate''
          | ErrBlockMassTooHigh \<Rightarrow> ''bad-blk-mass''
          | ErrBlockVersionTooOld \<Rightarrow> ''bad-version''
          | ErrTimeTooOld \<Rightarrow> ''time-too-old''
          | ErrTimeTooNew \<Rightarrow> ''time-too-new''
          | ErrDifficultyTooLow \<Rightarrow> ''bad-diffbits''
          | ErrUnexpectedDifficulty \<Rightarrow> ''bad-diffbits''
          | ErrHighHash \<Rightarrow> ''high-hash''
          | ErrBadMerkleRoot \<Rightarrow> ''bad-txnmrklroot''
          | ErrFinalityPointTimeTooOld \<Rightarrow> ''finality-point-time-too-old''
          | ErrNoTransactions \<Rightarrow> ''bad-txns-none''
          | ErrNoTxInputs \<Rightarrow> ''bad-txns-noinputs''
          | ErrTxMassTooHigh \<Rightarrow> ''bad-txns-mass''
          | ErrBadTxOutValue \<Rightarrow> ''bad-txns-outputvalue''
          | ErrDuplicateTxInputs \<Rightarrow> ''bad-txns-dupinputs''
          | ErrBadTxInput \<Rightarrow> ''bad-txns-badinput''
          | ErrMissingTxOut \<Rightarrow> ''bad-txns-missinginput''
          | ErrUnfinalizedTx \<Rightarrow> ''bad-txns-unfinalizedtx''
          | ErrDuplicateTx \<Rightarrow> ''bad-txns-duplicate''
          | ErrOverwriteTx \<Rightarrow> ''bad-txns-overwrite''
          | ErrImmatureSpend \<Rightarrow> ''bad-txns-maturity''
          | ErrSpendTooHigh \<Rightarrow> ''bad-txns-highspend''
          | ErrBadFees \<Rightarrow> ''bad-txns-fees''
          | ErrTooManySigOps \<Rightarrow> ''high-sigops''
          | ErrFirstTxNotCoinbase \<Rightarrow> ''bad-txns-nocoinbase''
          | ErrMultipleCoinbases \<Rightarrow> ''bad-txns-multicoinbase''
          | ErrBadCoinbasePayloadLen \<Rightarrow> ''bad-cb-length''
          | ErrScriptMalformed \<Rightarrow> ''bad-script-malformed''
          | ErrScriptValidation \<Rightarrow> ''bad-script-validate''
          | ErrParentBlockUnknown \<Rightarrow> ''parent-blk-not-found''
          | ErrInvalidAncestorBlock \<Rightarrow> ''bad-parentblk''
          | ErrParentBlockNotCurrentTips \<Rightarrow> ''inconclusive-not-best-parentblk''
          | ErrOtherCode n \<Rightarrow> ''rejected: '' @ ErrorText err))"

subsection \<open>Requests, replies, the server\<close>

record templateRequest =
  Mode :: string
  PayAddress :: string
  LongPollID :: string
  Data :: string

text \<open>
  \<^verbatim>\<open>rpcmodel.GetBlockTemplateResultTx\<close> and \<^verbatim>\<open>rpcmodel.GetBlockTemplateResult\<close>;
  the fields carry a prefix since several share their name with a header field.
\<close>

record resultTx =
  rtData :: string
  rtID :: string
  rtDepends :: "int list"
  rtMass :: nat
  rtFee :: nat

record getBlockTemplateResult =
  gbtBits :: string
  gbtCurTime :: int
  gbtHeight :: nat
  gbtParentHashes :: "string list"
  gbtMassLimit :: nat
  gbtTransactions :: "resultTx list"
  gbtHashMerkleRoot :: string
  gbtAcceptedIDMerkleRoot :: string
  gbtUTXOCommitment :: string
  gbtVersion :: int
  gbtLongPollID :: string
  gbtTarget :: string
  gbtMinTime :: int
  gbtMaxTime :: int
  gbtMutable :: "string list"
  gbtNonceRange :: string
  gbtCapabilities :: "string list"
  gbtIsSynced :: bool

text \<open>The first return value of a handler, a Go \<^verbatim>\<open>interface{}\<close>.\<close>

datatype reply = Null | Bool bool | Str string | Template getBlockTemplateResult

text \<open>
  What one call of the handler reads of the server and of the packages behind it:
  the configuration, the connection manager, the DAG, the block template generator with
  its transaction source, the sync manager, the random source and the clock. The three
  clock fields are the three places where \<^verbatim>\<open>updateBlockTemplate\<close> calls
  \<^verbatim>\<open>mstime.Now()\<close>, in the order of the source. \<open>CompactToBigHex\<close> is
  \<^verbatim>\<open>fmt.Sprintf("%064x", util.CompactToBig(bits))\<close>. \<open>RangeOrder\<close> is the
  order in which a \<^verbatim>\<open>range\<close> over a Go map visits the keys: the language leaves
  it open, so it is some rearrangement of the keys.
\<close>

record 'h server =
  RegressionTest :: bool
  Simnet :: bool
  ConnectedCount :: int
  DecodeAddress :: "string \<Rightarrow> string + address"
  Deserialize :: "8 word list \<Rightarrow> string + 'h msgBlock"
  TipHashes :: "'h list"
  CheckConnectBlockTemplate :: "'h msgBlock \<Rightarrow> goError option"
  NextBlockMinimumTime :: mstime
  DagNow :: mstime
  TimestampDeviationTolerance :: int
  LastUpdated :: mstime
  NowLastTxUpdate :: mstime
  NowRegenerate :: mstime
  NowGenerated :: mstime
  RandomUint64 :: "string + nat"
  NewBlockTemplate :: "address \<Rightarrow> nat \<Rightarrow> string + 'h blockTemplate"
  UpdateBlockTime :: "'h msgBlock \<Rightarrow> 'h msgBlock"
  IsSynced :: bool
  CompactToBigHex :: "nat \<Rightarrow> string"
  MaxMassPerBlock :: nat
  Hashes :: "'h daghash"
  RangeOrder :: "int list \<Rightarrow> int list"

subsection \<open>Block proposals\<close>

definition fromHexChar :: "char \<Rightarrow> nat option" where
  "fromHexChar c =
     (let n = (of_char c :: nat)
      in if 48 \<le> n \<and> n \<le> 57 then Some (n - 48)
         else if 97 \<le> n \<and> n \<le> 102 then Some (n - 97 + 10)
         else if 65 \<le> n \<and> n \<le> 70 then Some (n - 65 + 10)
         else None)"

text \<open>\<^verbatim>\<open>hex.DecodeString\<close>; \<open>None\<close> is its error return.\<close>

fun hexDecodeString :: "string \<Rightarrow> 8 word list option" where
  "hexDecodeString [] = Some []"
| "hexDecodeString [c] = None"
| "hexDecodeString (a # b # cs) =
     (case (fromHexChar a, fromHexChar b) of
        (Some x, Some y) \<Rightarrow>
          (case hexDecodeString cs of
             None \<Rightarrow> None
           | Some bs \<Rightarrow> Some (of_nat (16 * x + y) # bs))
      | _ \<Rightarrow> None)"

definition handleGetBlockTemplateProposal ::
  "'h server \<Rightarrow> templateRequest \<Rightarrow> reply \<times> error option" where
  "handleGetBlockTemplateProposal s request =
     (let hexData = Data request
      in if hexData = [] then (Bool False, Some (RPCError ErrRPCType))
         else
           (let hexData = (if length hexData mod 2 \<noteq> 0 then ''0'' @ hexData else hexData)
            in case hexDecodeString hexData of
                 None \<Rightarrow> (Bool False, Some (RPCError ErrRPCDeserialization))
               | Some dataBytes \<Rightarrow>
                   (case Deserialize s dataBytes of
                      Inl e \<Rightarrow> (Null, Some (RPCError ErrRPCDeserialization))
                    | Inr msgBlock \<Rightarrow>
                        (let expectedParentHashes = TipHashes s;
                             parentHashes = ParentHashes (Header msgBlock)
                         in if \<not> AreEqual expectedParentHashes parentHashes
                            then (Str ''bad-parentblk'', None)
                            else (case CheckConnectBlockTemplate s msgBlock of
                                    Some err \<Rightarrow>
                                      (if asRuleError err = None
                                       then (Null, Some (RPCError ErrRPCVerify))
                                       else (Str (dagErrToGBTErrString err), None))
                                  | None \<Rightarrow> (Null, None))))))"

subsection \<open>The work state\<close>

text \<open>
  A Go map is an association list with distinct keys; its order has no meaning. A channel
  is the number under which the store knows it.
\<close>

type_synonym chan = nat
type_synonym channels = "(int \<times> chan) list"
type_synonym notifyMap = "(string \<times> channels) list"

text \<open>
  \<^verbatim>\<open>gbtWorkState\<close>. A nil slice, pointer or interface is \<open>None\<close>. The last two
  fields are the channel store: the channels closed so far and the next channel
  \<^verbatim>\<open>make\<close> will return.
\<close>

record 'h gbtWorkState =
  lastTxUpdate :: mstime
  lastGenerated :: mstime
  tipHashes :: "'h list option"
  minTimestamp :: mstime
  template :: "'h blockTemplate option"
  notifyMap :: notifyMap
  payAddress :: "address option"
  chanClosed :: "chan list"
  chanNext :: chan

definition newGbtWorkState :: "'h gbtWorkState" where
  "newGbtWorkState =
     \<lparr>lastTxUpdate = zeroTime, lastGenerated = zeroTime, tipHashes = None,
      minTimestamp = zeroTime, template = None, notifyMap = [], payAddress = None,
      chanClosed = [], chanNext = 0\<rparr>"

subsection \<open>The notification registry\<close>

text \<open>\<^verbatim>\<open>close(c)\<close> for each channel of a list; closing a closed channel panics.\<close>

fun closeAll :: "chan list \<Rightarrow> chan list \<Rightarrow> error + chan list" where
  "closeAll [] closed = Inr closed"
| "closeAll (c # cs) closed =
     (if c \<in> set closed then Inl (Panic ''close of closed channel'')
      else closeAll cs (c # closed))"

text \<open>
  The first loop of \<^verbatim>\<open>notifyLongPollers\<close>: every entry whose key is not the
  current tip hashes string has its channels closed and is deleted.
\<close>

fun notifyOtherTips :: "string \<Rightarrow> notifyMap \<Rightarrow> chan list \<Rightarrow> error + (notifyMap \<times> chan list)" where
  "notifyOtherTips tipHashesStr [] closed = Inr ([], closed)"
| "notifyOtherTips tipHashesStr ((hashesStr, chs) # rest) closed =
     (if hashesStr \<noteq> tipHashesStr then
        (case closeAll (map snd chs) closed of
           Inl e \<Rightarrow> Inl e
         | Inr closed' \<Rightarrow> notifyOtherTips tipHashesStr rest closed')
      else
        (case notifyOtherTips tipHashesStr rest closed of
           Inl e \<Rightarrow> Inl e
         | Inr (rest', closed') \<Rightarrow> Inr ((hashesStr, chs) # rest', closed')))"

text \<open>
  The second loop: under the current tip hashes string, every channel registered with a
  time before \<open>lastGeneratedUnix\<close> is closed and deleted.
\<close>

fun notifyOlder :: "int \<Rightarrow> channels \<Rightarrow> chan list \<Rightarrow> error + (channels \<times> chan list)" where
  "notifyOlder lastGeneratedUnix [] closed = Inr ([], closed)"
| "notifyOlder lastGeneratedUnix ((lastGen, c) # rest) closed =
     (if lastGen < lastGeneratedUnix then
        (if c \<in> set closed then Inl (Panic ''close of closed channel'')
         else notifyOlder lastGeneratedUnix rest (c # closed))
      else
        (case notifyOlder lastGeneratedUnix rest closed of
           Inl e \<Rightarrow> Inl e
         | Inr (rest', closed') \<Rightarrow> Inr ((lastGen, c) # rest', closed')))"

definition notifyLongPollers ::
  "'h daghash \<Rightarrow> 'h list \<Rightarrow> mstime \<Rightarrow> 'h gbtWorkState \<Rightarrow> error + 'h gbtWorkState" where
  "notifyLongPollers d tips lastGen state =
     (let tipHashesStr = JoinHashesStrings d tips []
      in case notifyOtherTips tipHashesStr (notifyMap state) (chanClosed state) of
           Inl e \<Rightarrow> Inl e
         | Inr (nm, closed) \<Rightarrow>
             (let state = state\<lparr>notifyMap := nm, chanClosed := closed\<rparr>
              in if IsZero lastGen then Inr state
                 else (case map_of nm tipHashesStr of
                         None \<Rightarrow> Inr state
                       | Some chs \<Rightarrow>
                           (case notifyOlder (UnixSeconds lastGen) chs closed of
                              Inl e \<Rightarrow> Inl e
                            | Inr (chs', closed') \<Rightarrow>
                                Inr (state\<lparr>notifyMap :=
                                              (if length chs' = 0
                                               then AList.delete tipHashesStr nm
                                               else AList.update tipHashesStr chs' nm),
                                            chanClosed := closed'\<rparr>)))))"

text \<open>
  \<^verbatim>\<open>templateUpdateChan\<close> returns the channel and the state. The inner map is shared
  with the outer one, so storing into it is an update of the outer entry.
\<close>

definition templateUpdateChan ::
  "'h daghash \<Rightarrow> 'h list \<Rightarrow> int \<Rightarrow> 'h gbtWorkState \<Rightarrow> chan \<times> 'h gbtWorkState" where
  "templateUpdateChan d tips lastGen state =
     (let tipHashesStr = JoinHashesStrings d tips [];
          (chs, nm) = (case map_of (notifyMap state) tipHashesStr of
                         None \<Rightarrow> ([], AList.update tipHashesStr [] (notifyMap state))
                       | Some chs \<Rightarrow> (chs, notifyMap state))
      in case map_of chs lastGen of
           None \<Rightarrow>
             (let c = chanNext state
              in (c, state\<lparr>notifyMap := AList.update tipHashesStr (AList.update lastGen c chs) nm,
                           chanNext := Suc c\<rparr>))
         | Some c \<Rightarrow> (c, state\<lparr>notifyMap := nm\<rparr>))"

subsection \<open>Creating or refreshing the template\<close>

text \<open>
  The condition of the \<^verbatim>\<open>if\<close> in \<^verbatim>\<open>updateBlockTemplate\<close>, evaluated left to
  right as Go's \<^verbatim>\<open>||\<close> does. Calling \<^verbatim>\<open>String()\<close> on a nil
  \<^verbatim>\<open>state.payAddress\<close> panics. The duration is in milliseconds.
\<close>

definition needNewTemplate ::
  "'h server \<Rightarrow> address \<Rightarrow> mstime \<Rightarrow> 'h gbtWorkState \<Rightarrow> error + bool" where
  "needNewTemplate s payAddr lastTxUpd state =
     (if template state = None then Inr True
      else (case tipHashes state of
              None \<Rightarrow> Inr True
            | Some stateTips \<Rightarrow>
                if \<not> AreEqual stateTips (TipHashes s) then Inr True
                else (case payAddress state of
                        None \<Rightarrow> Inl (Panic ''nil pointer dereference'')
                      | Some stateAddr \<Rightarrow>
                          Inr (String stateAddr \<noteq> String payAddr \<or>
                               (lastTxUpdate state \<noteq> lastTxUpd \<and>
                                After (NowRegenerate s)
                                  (Add (lastGenerated state) (1000 * gbtRegenerateSeconds)))))))"

text \<open>
  \<^verbatim>\<open>updateBlockTemplate\<close> returns its error (\<open>None\<close> is nil) and the state, which
  it changes also when it fails. Modelled from the spec: \<^verbatim>\<open>internalRPCError\<close> is
  not part of the file; it makes the RPC error of kind internal.
\<close>

definition updateBlockTemplate ::
  "'h server \<Rightarrow> address \<Rightarrow> 'h gbtWorkState \<Rightarrow> error option \<times> 'h gbtWorkState" where
  "updateBlockTemplate s payAddr state =
     (let lastTxUpd = (if IsZero (LastUpdated s) then NowLastTxUpdate s else LastUpdated s);
          tips = TipHashes s
      in case needNewTemplate s payAddr lastTxUpd state of
           Inl e \<Rightarrow> (Some e, state)
         | Inr True \<Rightarrow>
             (let state = state\<lparr>tipHashes := None\<rparr>
              in case RandomUint64 s of
                   Inl e \<Rightarrow> (Some (RPCError ErrRPCInternal), state)
                 | Inr extraNonce \<Rightarrow>
                     (case NewBlockTemplate s payAddr extraNonce of
                        Inl e \<Rightarrow> (Some (RPCError ErrRPCInternal), state)
                      | Inr blkTemplate \<Rightarrow>
                          (let state = state\<lparr>template := Some blkTemplate,
                                             lastGenerated := NowGenerated s,
                                             lastTxUpdate := lastTxUpd,
                                             tipHashes := Some tips,
                                             minTimestamp := NextBlockMinimumTime s,
                                             payAddress := Some payAddr\<rparr>
                           in case notifyLongPollers (Hashes s) tips lastTxUpd state of
                                Inl e \<Rightarrow> (Some e, state)
                              | Inr state' \<Rightarrow> (None, state'))))
         | Inr False \<Rightarrow>
             (case template state of
                None \<Rightarrow> (Some (Panic ''nil pointer dereference''), state)
              | Some tmpl \<Rightarrow>
                  (let msgBlock = UpdateBlockTime s (Block tmpl);
                       msgBlock = msgBlock\<lparr>Header := (Header msgBlock)\<lparr>Nonce := 0\<rparr>\<rparr>
                   in (None, state\<lparr>template := Some (tmpl\<lparr>Block := msgBlock\<rparr>)\<rparr>))))"

subsection \<open>The reply\<close>

definition gbtNonceRange :: string where
  "gbtNonceRange = ''000000000000ffffffffffff''"

definition gbtMutableFields :: "string list" where
  "gbtMutableFields = [''time'', ''transactions/add'', ''parentblock'', ''coinbase/append'']"

definition gbtCapabilities :: "string list" where
  "gbtCapabilities = [''proposal'']"

definition hexDigit :: "nat \<Rightarrow> char" where
  "hexDigit n = (if n < 10 then char_of (48 + n) else char_of (87 + n))"

text \<open>\<^verbatim>\<open>hex.EncodeToString\<close>.\<close>

fun hexEncodeToString :: "8 word list \<Rightarrow> string" where
  "hexEncodeToString [] = []"
| "hexEncodeToString (b # bs) =
     hexDigit (unat b div 16) # hexDigit (unat b mod 16) # hexEncodeToString bs"

text \<open>\<^verbatim>\<open>strconv.FormatInt(n, 16)\<close> for a value that is not negative.\<close>

fun natHex :: "nat \<Rightarrow> string" where
  "natHex n = (if n < 16 then [hexDigit n] else natHex (n div 16) @ [hexDigit (n mod 16)])"

declare natHex.simps [simp del]

text \<open>
  The inner loop of \<^verbatim>\<open>blockTemplateResult\<close> over the inputs of a transaction:
  the keys of \<^verbatim>\<open>dependsMap\<close>, each once.
\<close>

fun dependsMap :: "('h \<rightharpoonup> int) \<Rightarrow> 'h list \<Rightarrow> int list \<Rightarrow> int list" where
  "dependsMap txIndex [] dm = dm"
| "dependsMap txIndex (prevTxID # txIns) dm =
     (case txIndex prevTxID of
        Some idx \<Rightarrow> dependsMap txIndex txIns (List.insert idx dm)
      | None \<Rightarrow> dependsMap txIndex txIns dm)"

text \<open>
  The loop over \<^verbatim>\<open>msgBlock.Transactions\<close>, from index \<open>i\<close> on, with the
  \<^verbatim>\<open>txIndex\<close> built so far. It starts at index 0 and appends a result for every
  transaction it visits. Reading \<^verbatim>\<open>TxMasses[i]\<close> or \<^verbatim>\<open>Fees[i]\<close> out of
  range panics.
\<close>

fun resultTransactions ::
  "'h server \<Rightarrow> 'h blockTemplate \<Rightarrow> nat \<Rightarrow> ('h \<rightharpoonup> int) \<Rightarrow> 'h msgTx list \<Rightarrow> error + resultTx list" where
  "resultTransactions s tmpl i txIndex [] = Inr []"
| "resultTransactions s tmpl i txIndex (tx # txs) =
     (let txID = TxID tx;
          txIndex = txIndex(txID \<mapsto> int i);
          depends = RangeOrder s (dependsMap txIndex (TxIn tx) [])
      in case Serialize tx of
           Inl e \<Rightarrow> Inl (RPCError ErrRPCInternal)
         | Inr txBuf \<Rightarrow>
             if length (TxMasses tmpl) \<le> i \<or> length (Fees tmpl) \<le> i
             then Inl (Panic ''index out of range'')
             else (case resultTransactions s tmpl (Suc i) txIndex txs of
                     Inl e \<Rightarrow> Inl e
                   | Inr transactions \<Rightarrow>
                       Inr (\<lparr>rtData = hexEncodeToString txBuf,
                             rtID = HashString (Hashes s) txID,
                             rtDepends = depends,
                             rtMass = TxMasses tmpl ! i,
                             rtFee = Fees tmpl ! i\<rparr> # transactions)))"

text \<open>
  \<^verbatim>\<open>blockTemplateResult\<close>. A nil template panics, and so does
  \<^verbatim>\<open>make\<close> with the capacity \<open>numTx - 1\<close> when there is no transaction.
\<close>

definition blockTemplateResult ::
  "'h server \<Rightarrow> 'h gbtWorkState \<Rightarrow> error + getBlockTemplateResult" where
  "blockTemplateResult s state =
     (case template state of
        None \<Rightarrow> Inl (Panic ''nil pointer dereference'')
      | Some tmpl \<Rightarrow>
          (let msgBlock = Block tmpl;
               header = Header msgBlock;
               adjustedTime = DagNow s;
               maxTime = Add adjustedTime (TimestampDeviationTolerance s)
           in if After (Timestamp header) maxTime then Inl (RPCError ErrRPCOutOfRange)
              else if length (Transactions msgBlock) = 0
              then Inl (Panic ''makeslice: cap out of range'')
              else (case resultTransactions s tmpl 0 Map.empty (Transactions msgBlock) of
                      Inl e \<Rightarrow> Inl e
                    | Inr transactions \<Rightarrow>
                        Inr \<lparr>gbtBits = natHex (Bits header),
                             gbtCurTime = UnixMilliseconds (Timestamp header),
                             gbtHeight = Height tmpl,
                             gbtParentHashes = map (HashString (Hashes s)) (ParentHashes header),
                             gbtMassLimit = MaxMassPerBlock s,
                             gbtTransactions = transactions,
                             gbtHashMerkleRoot = HashString (Hashes s) (HashMerkleRoot header),
                             gbtAcceptedIDMerkleRoot =
                               HashString (Hashes s) (AcceptedIDMerkleRoot header),
                             gbtUTXOCommitment = HashString (Hashes s) (UTXOCommitment header),
                             gbtVersion = Version header,
                             gbtLongPollID =
                               encodeLongPollID (Hashes s)
                                 (case tipHashes state of None \<Rightarrow> [] | Some tips \<Rightarrow> tips)
                                 (payAddress state) (lastGenerated state),
                             gbtTarget = CompactToBigHex s (Bits header),
                             gbtMinTime = UnixMilliseconds (minTimestamp state),
                             gbtMaxTime = UnixMilliseconds maxTime,
                             gbtMutable = gbtMutableFields,
                             gbtNonceRange = gbtNonceRange,
                             gbtCapabilities = gbtCapabilities,
                             gbtIsSynced = IsSynced s\<rparr>)))"

subsection \<open>The handlers\<close>

text \<open>
  \<^verbatim>\<open>blockTemplateOrLongPollChan\<close> returns its three results (a nil result, channel
  or error is \<open>None\<close>) and the state. An error of \<^verbatim>\<open>decodeLongPollID\<close> is
  handled by returning the current template; a panic is not an error return and goes on
  up.
\<close>

definition blockTemplateOrLongPollChan ::
  "'h server \<Rightarrow> string \<Rightarrow> address \<Rightarrow> 'h gbtWorkState \<Rightarrow>
     (getBlockTemplateResult option \<times> chan option \<times> error option) \<times> 'h gbtWorkState" where
  "blockTemplateOrLongPollChan s longPollID payAddr state =
     (case updateBlockTemplate s payAddr state of
        (Some e, state) \<Rightarrow> ((None, None, Some e), state)
      | (None, state) \<Rightarrow>
          (case decodeLongPollID (Hashes s) longPollID of
             Inl (Panic p) \<Rightarrow> ((None, None, Some (Panic p)), state)
           | Inl decodeErr \<Rightarrow>
               (case blockTemplateResult s state of
                  Inl e \<Rightarrow> ((None, None, Some e), state)
                | Inr result \<Rightarrow> ((Some result, None, None), state))
           | Inr (parentHashes, lastGen) \<Rightarrow>
               (case template state of
                  None \<Rightarrow> ((None, None, Some (Panic ''nil pointer dereference'')), state)
                | Some tmpl \<Rightarrow>
                    (let areHashesEqual =
                           AreEqual (ParentHashes (Header (Block tmpl))) parentHashes
                     in if \<not> areHashesEqual \<or> lastGen \<noteq> UnixSeconds (lastGenerated state)
                        then (case blockTemplateResult s state of
                                Inl e \<Rightarrow> ((None, None, Some e), state)
                              | Inr result \<Rightarrow> ((Some result, None, None), state))
                        else (case templateUpdateChan (Hashes s) parentHashes lastGen state of
                                (longPollChan, state) \<Rightarrow>
                                  ((None, Some longPollChan, None), state))))))"

text \<open>
  A handler either returns its two results or, in the long poll, blocks in the
  \<^verbatim>\<open>select\<close> on the client's close channel and the long poll channel (a nil
  channel, \<open>None\<close>, is never ready).
\<close>

datatype handlerResult = Return reply "error option" | Select "chan option"

definition handleGetBlockTemplateLongPoll ::
  "'h server \<Rightarrow> string \<Rightarrow> address \<Rightarrow> 'h gbtWorkState \<Rightarrow> handlerResult \<times> 'h gbtWorkState" where
  "handleGetBlockTemplateLongPoll s longPollID payAddr state =
     (case blockTemplateOrLongPollChan s longPollID payAddr state of
        ((result, longPollChan, Some e), state) \<Rightarrow> (Return Null (Some e), state)
      | ((Some result, longPollChan, None), state) \<Rightarrow> (Return (Template result) None, state)
      | ((None, longPollChan, None), state) \<Rightarrow> (Select longPollChan, state))"

text \<open>
  What follows the \<^verbatim>\<open>select\<close>: when the client closed first (\<open>clientClosed\<close>)
  the handler quits; when the long poll channel was closed it takes the lock again, with
  the server as it is by then, and returns the latest template.
\<close>

definition handleGetBlockTemplateLongPollWake ::
  "bool \<Rightarrow> 'h server \<Rightarrow> address \<Rightarrow> 'h gbtWorkState \<Rightarrow> (reply \<times> error option) \<times> 'h gbtWorkState" where
  "handleGetBlockTemplateLongPollWake clientClosed s payAddr state =
     (if clientClosed then ((Null, Some ErrClientQuit), state)
      else (case updateBlockTemplate s payAddr state of
              (Some e, state) \<Rightarrow> ((Null, Some e), state)
            | (None, state) \<Rightarrow>
                (case blockTemplateResult s state of
                   Inl e \<Rightarrow> ((Null, Some e), state)
                 | Inr result \<Rightarrow> ((Template result, None), state))))"

text \<open>The request is a pointer; reading a field of a nil request panics.\<close>

definition handleGetBlockTemplateRequest ::
  "'h server \<Rightarrow> templateRequest option \<Rightarrow> 'h gbtWorkState \<Rightarrow> handlerResult \<times> 'h gbtWorkState" where
  "handleGetBlockTemplateRequest s request state =
     (if \<not> (RegressionTest s \<or> Simnet s) \<and> ConnectedCount s = 0
      then (Return Null (Some (RPCError ErrRPCClientNotConnected)), state)
      else (case request of
              None \<Rightarrow> (Return Null (Some (Panic ''nil pointer dereference'')), state)
            | Some req \<Rightarrow>
                (case DecodeAddress s (PayAddress req) of
                   Inl e \<Rightarrow> (Return Null (Some (AddressDecodeFailed e)), state)
                 | Inr payAddr \<Rightarrow>
                     if LongPollID req \<noteq> []
                     then handleGetBlockTemplateLongPoll s (LongPollID req) payAddr state
                     else (case updateBlockTemplate s payAddr state of
                             (Some e, state) \<Rightarrow> (Return Null (Some e), state)
                           | (None, state) \<Rightarrow>
                               (case blockTemplateResult s state of
                                  Inl e \<Rightarrow> (Return Null (Some e), state)
                                | Inr result \<Rightarrow> (Return (Template result) None, state))))))"

definition handleGetBlockTemplate ::
  "'h server \<Rightarrow> templateRequest option \<Rightarrow> 'h gbtWorkState \<Rightarrow> handlerResult \<times> 'h gbtWorkState" where
  "handleGetBlockTemplate s request state =
     (let mode = (case request of
                    None \<Rightarrow> ''template''
                  | Some req \<Rightarrow> if Mode req \<noteq> [] then Mode req else ''template'')
      in if mode = ''template'' then handleGetBlockTemplateRequest s request state
         else if mode = ''proposal'' then
           (case request of
              None \<Rightarrow> (Return Null (Some (Panic ''nil pointer dereference'')), state)
            | Some req \<Rightarrow>
                (case handleGetBlockTemplateProposal s req of
                   (val, err) \<Rightarrow> (Return val err, state)))
         else (Return Null (Some (RPCError ErrRPCInvalidParameter)), state))"

subsection \<open>The producers\<close>

text \<open>The bodies that \<^verbatim>\<open>NotifyBlockAdded\<close> and \<^verbatim>\<open>NotifyMempoolTx\<close> run under the lock.\<close>

definition NotifyBlockAdded ::
  "'h daghash \<Rightarrow> 'h list \<Rightarrow> 'h gbtWorkState \<Rightarrow> error + 'h gbtWorkState" where
  "NotifyBlockAdded d tips state = notifyLongPollers d tips (lastTxUpdate state) state"

definition NotifyMempoolTx ::
  "'h daghash \<Rightarrow> mstime \<Rightarrow> mstime \<Rightarrow> 'h gbtWorkState \<Rightarrow> error + 'h gbtWorkState" where
  "NotifyMempoolTx d now lastUpdated state =
     (case tipHashes state of
        None \<Rightarrow> Inr state
      | Some tips \<Rightarrow>
          if IsZero (lastGenerated state) then Inr state
          else if After now (Add (lastGenerated state) (1000 * gbtRegenerateSeconds))
          then notifyLongPollers d tips lastUpdated state
          else Inr state)"

subsection \<open>The rejection table of the specification\<close>

text \<open>
  The table the specification describes for the rejection mapper: the rule error codes
  it names, each with its protocol string, and the closed set of these strings.
\<close>

definition rejectionTable :: "(errorCode \<times> string) list" where
  "rejectionTable =
     [(ErrDuplicateBlock, ''duplicate''), (ErrBlockMassTooHigh, ''bad-blk-mass''),
      (ErrBlockVersionTooOld, ''bad-version''), (ErrTimeTooOld, ''time-too-old''),
      (ErrTimeTooNew, ''time-too-new''), (ErrDifficultyTooLow, ''bad-diffbits''),
      (ErrUnexpectedDifficulty, ''bad-diffbits''), (ErrHighHash, ''high-hash''),
      (ErrBadMerkleRoot, ''bad-txnmrklroot''),
      (ErrFinalityPointTimeTooOld, ''finality-point-time-too-old''),
      (ErrNoTransactions, ''bad-txns-none''), (ErrNoTxInputs, ''bad-txns-noinputs''),
      (ErrTxMassTooHigh, ''bad-txns-mass''),
      (ErrBadTxOutValue, ''bad-txns-outputvalue''),
      (ErrDuplicateTxInputs, ''bad-txns-dupinputs''),
      (ErrBadTxInput, ''bad-txns-badinput''),
      (ErrMissingTxOut, ''bad-txns-missinginput''),
      (ErrUnfinalizedTx, ''bad-txns-unfinalizedtx''),
      (ErrDuplicateTx, ''bad-txns-duplicate''),
      (ErrOverwriteTx, ''bad-txns-overwrite''),
      (ErrImmatureSpend, ''bad-txns-maturity''),
      (ErrSpendTooHigh, ''bad-txns-highspend''), (ErrBadFees, ''bad-txns-fees''),
      (ErrTooManySigOps, ''high-sigops''),
      (ErrFirstTxNotCoinbase, ''bad-txns-nocoinbase''),
      (ErrMultipleCoinbases, ''bad-txns-multicoinbase''),
      (ErrBadCoinbasePayloadLen, ''bad-cb-length''),
      (ErrScriptMalformed, ''bad-script-malformed''),
      (ErrScriptValidation, ''bad-script-validate''),
      (ErrParentBlockUnknown, ''parent-blk-not-found''),
      (ErrInvalidAncestorBlock, ''bad-parentblk''),
      (ErrParentBlockNotCurrentTips, ''inconclusive-not-best-parentblk'')]"

definition rejectionStrings :: "string list" where
  "rejectionStrings =
     [''duplicate'', ''bad-blk-mass'', ''bad-version'', ''time-too-old'',
      ''time-too-new'', ''bad-diffbits'', ''high-hash'', ''bad-txnmrklroot'',
      ''finality-point-time-too-old'', ''bad-txns-none'', ''bad-txns-noinputs'',
      ''bad-txns-mass'', ''bad-txns-outputvalue'', ''bad-txns-dupinputs'',
      ''bad-txns-badinput'', ''bad-txns-missinginput'', ''bad-txns-unfinalizedtx'',
      ''bad-txns-duplicate'', ''bad-txns-overwrite'', ''bad-txns-maturity'',
      ''bad-txns-highspend'', ''bad-txns-fees'', ''high-sigops'',
      ''bad-txns-nocoinbase'', ''bad-txns-multicoinbase'', ''bad-cb-length'',
      ''bad-script-malformed'', ''bad-script-validate'', ''parent-blk-not-found'',
      ''bad-parentblk'', ''inconclusive-not-best-parentblk'']"

subsection \<open>Sample values\<close>

text \<open>
  A small server and its blocks, for evaluating the definitions: hashes are their own
  strings, two transactions wait in the template after the coinbase.
\<close>

definition sampleHashes :: "string daghash" where
  "sampleHashes = \<lparr>HashSize = 32, HashString = (\<lambda>h. h), NewHashFromStr = (\<lambda>str. Inr str)\<rparr>"

definition sampleHeader :: "string blockHeader" where
  "sampleHeader =
     \<lparr>Version = 1, ParentHashes = [''aa''], HashMerkleRoot = ''m1'',
      AcceptedIDMerkleRoot = ''m2'', UTXOCommitment = ''m3'', Timestamp = 5000,
      Bits = 255, Nonce = 7\<rparr>"

definition sampleBlock :: "string msgBlock" where
  "sampleBlock =
     \<lparr>Header = sampleHeader,
      Transactions =
        [\<lparr>TxID = ''c0'', TxIn = [], Serialize = Inr [0]\<rparr>,
         \<lparr>TxID = ''t1'', TxIn = [''zz''], Serialize = Inr [1]\<rparr>,
         \<lparr>TxID = ''t2'', TxIn = [''t1'', ''c0'', ''t1''], Serialize = Inr [2, 171]\<rparr>]\<rparr>"

definition sampleTemplate :: "string blockTemplate" where
  "sampleTemplate = \<lparr>Block = sampleBlock, TxMasses = [10, 20, 30], Fees = [0, 5, 6], Height = 9\<rparr>"

definition sampleServer :: "string server" where
  "sampleServer =
     \<lparr>RegressionTest = False, Simnet = False, ConnectedCount = 1,
      DecodeAddress = (\<lambda>str. if str = [] then Inl ''empty address'' else Inr (Address str)),
      Deserialize = (\<lambda>bytes. if bytes = [] then Inl ''unexpected EOF'' else Inr sampleBlock),
      TipHashes = [''aa''],
      CheckConnectBlockTemplate = (\<lambda>b. Some (GoError (Some ErrHighHash) ''hash too high'')),
      NextBlockMinimumTime = 4000, DagNow = 6000, TimestampDeviationTolerance = 1000,
      LastUpdated = 3000, NowLastTxUpdate = 6000, NowRegenerate = 6000, NowGenerated = 6000,
      RandomUint64 = Inr 42,
      NewBlockTemplate = (\<lambda>a n. Inr sampleTemplate),
      UpdateBlockTime = (\<lambda>b. b\<lparr>Header := (Header b)\<lparr>Timestamp := 6000\<rparr>\<rparr>),
      IsSynced = True, CompactToBigHex = (\<lambda>bits. ''ff''), MaxMassPerBlock = 1000,
      Hashes = sampleHashes, RangeOrder = rev\<rparr>"

definition sampleProposal :: templateRequest where
  "sampleProposal = \<lparr>Mode = ''proposal'', PayAddress = [], LongPollID = [], Data = ''abc''\<rparr>"

text \<open>
  The work state after the first template request for the address \<^verbatim>\<open>addr\<close>, and
  the reply the sample server then assembles.
\<close>

definition sampleState :: "string gbtWorkState" where
  "sampleState = snd (updateBlockTemplate sampleServer (Address ''addr'') newGbtWorkState)"

definition sampleReply :: getBlockTemplateResult where
  "sampleReply =
     \<lparr>gbtBits = ''ff'', gbtCurTime = 5000, gbtHeight = 9, gbtParentHashes = [''aa''],
      gbtMassLimit = 1000,
      gbtTransactions =
        [\<lparr>rtData = ''00'', rtID = ''c0'', rtDepends = [], rtMass = 10, rtFee = 0\<rparr>,
         \<lparr>rtData = ''01'', rtID = ''t1'', rtDepends = [], rtMass = 20, rtFee = 5\<rparr>,
         \<lparr>rtData = ''02ab'', rtID = ''t2'', rtDepends = [1, 0], rtMass = 30, rtFee = 6\<rparr>],
      gbtHashMerkleRoot = ''m1'', gbtAcceptedIDMerkleRoot = ''m2'', gbtUTXOCommitment = ''m3'',
      gbtVersion = 1, gbtLongPollID = ''aa-addr-6'', gbtTarget = ''ff'', gbtMinTime = 4000,
      gbtMaxTime = 7000,
      gbtMutable = [''time'', ''transactions/add'', ''parentblock'', ''coinbase/append''],
      gbtNonceRange = ''000000000000ffffffffffff'', gbtCapabilities = [''proposal''],
      gbtIsSynced = True\<rparr>"

text \<open>
  The sample state with three long pollers registered: two for the current tips, with the
  generation times 5 and 7, and one for other tips.
\<close>

definition sampleWaiting :: "string gbtWorkState" where
  "sampleWaiting =
     snd (templateUpdateChan sampleHashes [''bb''] 5
       (snd (templateUpdateChan sampleHashes [''aa''] 7
         (snd (templateUpdateChan sampleHashes [''aa''] 5 sampleState)))))"

text \<open>
  The sample server later on: the mempool has changed, the clock reads exactly 60
  seconds after the sample state's template was generated, and a new template would have
  the next height.
\<close>

definition sampleServerLater :: "string server" where
  "sampleServerLater =
     sampleServer\<lparr>LastUpdated := 9000, NowLastTxUpdate := 66000, NowRegenerate := 66000,
                  NowGenerated := 66000,
                  NewBlockTemplate := (\<lambda>a n. Inr (sampleTemplate\<lparr>Height := 10\<rparr>))\<rparr>"

subsection \<open>Auxiliary predicates\<close>

text \<open>
  The invariant of the loop over the transactions: \<^verbatim>\<open>txIndex\<close> maps an id only to
  the index of a transaction already visited that has this id.
\<close>

definition txIndexOK :: "'h msgTx list \<Rightarrow> ('h \<rightharpoonup> int) \<Rightarrow> bool" where
  "txIndexOK pre m =
     (\<forall>txid idx. m txid = Some idx \<longrightarrow> 0 \<le> idx \<and> nat idx < length pre \<and> TxID (pre ! nat idx) = txid)"

text \<open>
  The channels a notify map holds, and what the channel store guarantees of them:
  the keys of each map are distinct, no channel is registered twice, none of them is
  closed, and every channel in use was made before the next one.
\<close>

definition allChans :: "notifyMap \<Rightarrow> chan list" where
  "allChans nm = concat (map (\<lambda>entry. map snd (snd entry)) nm)"

definition wfChannels :: "'h gbtWorkState \<Rightarrow> bool" where
  "wfChannels state =
     (distinct (map fst (notifyMap state))
      \<and> list_all (\<lambda>entry. distinct (map fst (snd entry))) (notifyMap state)
      \<and> distinct (allChans (notifyMap state))
      \<and> list_all (\<lambda>c. c \<notin> set (chanClosed state) \<and> c < chanNext state)
           (allChans (notifyMap state))
      \<and> list_all (\<lambda>c. c < chanNext state) (chanClosed state))"

text \<open>
  The work states the server can be in: the new one, and what the three operations that
  write the state make of a reachable one, with any arguments. Every handler and both
  producers are built from these three.
\<close>

inductive reachable :: "'h gbtWorkState \<Rightarrow> bool" where
  reachable_new: "reachable newGbtWorkState"
| reachable_subscribe:
    "reachable state \<Longrightarrow> templateUpdateChan d tips lastGen state = (c, state')
     \<Longrightarrow> reachable state'"
| reachable_notify:
    "reachable state \<Longrightarrow> notifyLongPollers d tips t state = Inr state'
     \<Longrightarrow> reachable state'"
| reachable_update:
    "reachable state \<Longrightarrow> updateBlockTemplate s payAddr state = (err, state')
     \<Longrightarrow> reachable state'"

section \<open>Properties\<close>

lemma length_Split: "length (Split s sep) = Suc (count_list s sep)"
  by (induction s) (auto split: list.splits)

lemma decodeLongPollID_fields:
  "length (Split s CHR ''-'') \<noteq> 2 \<Longrightarrow> decodeLongPollID d s = Inl InvalidNumberOfFields"
  by (auto simp: decodeLongPollID_def split: list.splits)

text \<open>
  C1 (long poll ID round trip). The claim is that decoding an encoded long poll ID succeeds and gives back the tip
  hashes and the generation time in seconds. The code does the opposite: the encoder
  writes three fields separated by dashes, the decoder wants exactly two, so decoding
  an encoded ID fails with the field-count error for every list of hashes, every address
  and every time.
\<close>

theorem decodeLongPollID_encodeLongPollID_fails:
  "decodeLongPollID d (encodeLongPollID d h a t) = Inl InvalidNumberOfFields"
proof -
  have "count_list (encodeLongPollID d h a t) CHR ''-'' \<ge> 2"
    by (simp add: encodeLongPollID_def)
  then have "length (Split (encodeLongPollID d h a t) CHR ''-'') \<noteq> 2"
    by (simp add: length_Split)
  then show ?thesis
    by (rule decodeLongPollID_fields)
qed

subsection \<open>The rejection mapper\<close>

text \<open>
  C7. \<^verbatim>\<open>dagErrToGBTErrString\<close> is a total function (a definition by cases that
  covers every error). An error that is not a rule error, and a rule error whose code the
  table does not name, give \<^verbatim>\<open>rejected: \<close> followed by the error's text. Every code
  of the table gives its protocol string, whatever the text; every code is one of the
  table or another one; and the strings of the table are the closed set of the
  specification.
\<close>

theorem dagErrToGBTErrString_table:
  "dagErrToGBTErrString (GoError None text) = ''rejected: '' @ text
   \<and> dagErrToGBTErrString (GoError (Some (ErrOtherCode n)) text) = ''rejected: '' @ text
   \<and> map (\<lambda>code. dagErrToGBTErrString (GoError (Some code) text)) (map fst rejectionTable)
       = map snd rejectionTable
   \<and> (code \<in> set (map fst rejectionTable) \<or> (\<exists>m. code = ErrOtherCode m))
   \<and> set (map snd rejectionTable) = set rejectionStrings"
proof (intro conjI)
  show "dagErrToGBTErrString (GoError None text) = ''rejected: '' @ text"
    by (simp add: dagErrToGBTErrString_def)
  show "dagErrToGBTErrString (GoError (Some (ErrOtherCode n)) text) = ''rejected: '' @ text"
    by (simp add: dagErrToGBTErrString_def)
  show "map (\<lambda>code. dagErrToGBTErrString (GoError (Some code) text)) (map fst rejectionTable)
          = map snd rejectionTable"
    by (simp add: dagErrToGBTErrString_def rejectionTable_def)
  show "code \<in> set (map fst rejectionTable) \<or> (\<exists>m. code = ErrOtherCode m)"
    by (cases code) (simp_all add: rejectionTable_def)
  show "set (map snd rejectionTable) = set rejectionStrings"
    by (simp add: rejectionTable_def rejectionStrings_def insert_commute)
qed

subsection \<open>Block proposals\<close>

text \<open>
  C6. In proposal mode, when the data is the hex encoding of a block that deserializes:
  if the block's parent hashes are not the DAG's tips the call succeeds with the string
  \<^verbatim>\<open>bad-parentblk\<close>; otherwise the connect check runs: the call succeeds with null
  when the check passes, succeeds with the rejection string when the check fails with a
  rule error, and fails with the RPC error of kind verify on any other error.
\<close>

theorem handleGetBlockTemplateProposal_wellformed:
  assumes "Data request \<noteq> []"
    and "hexDecodeString (if length (Data request) mod 2 \<noteq> 0
                          then ''0'' @ Data request else Data request) = Some dataBytes"
    and "Deserialize s dataBytes = Inr block"
  shows "handleGetBlockTemplateProposal s request =
     (if ParentHashes (Header block) \<noteq> TipHashes s then (Str ''bad-parentblk'', None)
      else (case CheckConnectBlockTemplate s block of
              None \<Rightarrow> (Null, None)
            | Some err \<Rightarrow>
                (case asRuleError err of
                   Some code \<Rightarrow> (Str (dagErrToGBTErrString err), None)
                 | None \<Rightarrow> (Null, Some (RPCError ErrRPCVerify)))))"
  using assms
  by (auto simp: handleGetBlockTemplateProposal_def AreEqual_def Let_def
           split: option.splits)

theorem handleGetBlockTemplateProposal_wellformed_witness:
  "Data sampleProposal \<noteq> []
   \<and> hexDecodeString ''0abc'' = Some [10, 188]
   \<and> Deserialize sampleServer [10, 188] = Inr sampleBlock
   \<and> handleGetBlockTemplateProposal sampleServer sampleProposal = (Str ''high-hash'', None)"
proof -
  have d: "Data sampleProposal \<noteq> []"
    by (simp add: sampleProposal_def)
  have h: "hexDecodeString (if length (Data sampleProposal) mod 2 \<noteq> 0
             then ''0'' @ Data sampleProposal else Data sampleProposal) = Some [10, 188]"
    by (simp add: sampleProposal_def fromHexChar_def)
  have b: "Deserialize sampleServer [10, 188] = Inr sampleBlock"
    by (simp add: sampleServer_def)
  have h': "hexDecodeString ''0abc'' = Some [10, 188]"
    using h by (simp add: sampleProposal_def)
  show ?thesis
    using d h' b handleGetBlockTemplateProposal_wellformed [OF d h b]
    by (simp add: sampleServer_def sampleBlock_def sampleHeader_def dagErrToGBTErrString_def)
qed

text \<open>
  C10. In proposal mode a request with empty data fails with the RPC error of kind type,
  which is not the kind used for bad hex or an undecodable block. The result is the same
  for every work state and every server, and the work state is returned as it was.
\<close>

theorem handleGetBlockTemplate_proposal_no_data:
  assumes "Mode request = ''proposal''" and "Data request = []"
  shows "handleGetBlockTemplate s (Some request) state
           = (Return (Bool False) (Some (RPCError ErrRPCType)), state)
         \<and> RPCError ErrRPCType \<noteq> RPCError ErrRPCDeserialization"
  using assms
  by (simp add: handleGetBlockTemplate_def handleGetBlockTemplateProposal_def)

theorem handleGetBlockTemplate_proposal_no_data_witness:
  "Mode (sampleProposal\<lparr>Data := []\<rparr>) = ''proposal''
   \<and> Data (sampleProposal\<lparr>Data := []\<rparr>) = []
   \<and> handleGetBlockTemplate sampleServer (Some (sampleProposal\<lparr>Data := []\<rparr>)) newGbtWorkState
       = (Return (Bool False) (Some (RPCError ErrRPCType)), newGbtWorkState)"
proof -
  have m: "Mode (sampleProposal\<lparr>Data := []\<rparr>) = ''proposal''"
    by (simp add: sampleProposal_def)
  have d: "Data (sampleProposal\<lparr>Data := []\<rparr>) = []"
    by simp
  show ?thesis
    using m d handleGetBlockTemplate_proposal_no_data [OF m d, of sampleServer newGbtWorkState]
    by simp
qed

subsection \<open>The long poll with an ID that does not decode\<close>

lemma parseParentHashes_error:
  "parseParentHashes d str = Inl e \<Longrightarrow> isDecodeError e"
proof (induction d str arbitrary: e rule: parseParentHashes.induct)
  case (1 d str)
  from "1.prems" have
    "(if str = [] \<or> HashSize d = 0 then Inr []
      else (case NewHashFromStr d (take (HashSize d) str) of
              Inl e \<Rightarrow> Inl (NewHashFromStrFailed e)
            | Inr hash \<Rightarrow>
                (case parseParentHashes d (drop (HashSize d) str) of
                   Inl e \<Rightarrow> Inl e
                 | Inr parentHashes \<Rightarrow> Inr (hash # parentHashes)))) = Inl e"
    by (subst (asm) parseParentHashes.simps) simp
  with "1.IH" show ?case
    by (auto split: if_splits sum.splits)
qed

lemma decodeLongPollID_error:
  "0 < HashSize d \<Longrightarrow> decodeLongPollID d longPollID = Inl e \<Longrightarrow> isDecodeError e"
  by (auto simp: decodeLongPollID_def
           split: list.splits if_splits sum.splits option.splits
           dest: parseParentHashes_error)

lemma closeAll_error: "closeAll cs closed = Inl e \<Longrightarrow> \<not> isDecodeError e"
  by (induction cs arbitrary: closed) (auto split: if_splits)

lemma notifyOtherTips_error: "notifyOtherTips t nm closed = Inl e \<Longrightarrow> \<not> isDecodeError e"
  by (induction t nm closed rule: notifyOtherTips.induct)
     (auto split: if_splits sum.splits dest: closeAll_error)

lemma notifyOlder_error: "notifyOlder u chs closed = Inl e \<Longrightarrow> \<not> isDecodeError e"
  by (induction u chs closed rule: notifyOlder.induct)
     (auto split: if_splits sum.splits)

lemma notifyLongPollers_error:
  "notifyLongPollers d tips t state = Inl e \<Longrightarrow> \<not> isDecodeError e"
  by (auto simp: notifyLongPollers_def Let_def
           split: sum.splits if_splits option.splits prod.splits
           dest: notifyOtherTips_error notifyOlder_error)

lemma updateBlockTemplate_error:
  "updateBlockTemplate s payAddr state = (Some e, state') \<Longrightarrow> \<not> isDecodeError e"
  by (auto simp: updateBlockTemplate_def needNewTemplate_def Let_def
           split: sum.splits if_splits option.splits bool.splits
           dest: notifyLongPollers_error)

lemma resultTransactions_error:
  "resultTransactions s tmpl i txIndex txs = Inl e \<Longrightarrow> \<not> isDecodeError e"
  by (induction s tmpl i txIndex txs rule: resultTransactions.induct)
     (auto simp: Let_def split: sum.splits if_splits)

lemma blockTemplateResult_error:
  "blockTemplateResult s state = Inl e \<Longrightarrow> \<not> isDecodeError e"
  by (auto simp: blockTemplateResult_def Let_def
           split: option.splits if_splits sum.splits
           dest: resultTransactions_error)

text \<open>
  C8. In the long poll, when the supplied ID does not decode, the handler first creates
  or refreshes the template and then returns at once what the assembler makes of the
  current template: the template as a successful reply. It does not wait on a channel,
  and the decode error is not what it returns; the only failures left are those of the
  create-or-refresh step and of the assembler.
\<close>

theorem handleGetBlockTemplateLongPoll_decode_error:
  assumes "0 < HashSize (Hashes s)"
    and "decodeLongPollID (Hashes s) longPollID = Inl decodeErr"
  shows "handleGetBlockTemplateLongPoll s longPollID payAddr state =
           (case updateBlockTemplate s payAddr state of
              (Some e, st) \<Rightarrow> (Return Null (Some e), st)
            | (None, st) \<Rightarrow>
                (case blockTemplateResult s st of
                   Inl e \<Rightarrow> (Return Null (Some e), st)
                 | Inr result \<Rightarrow> (Return (Template result) None, st)))
         \<and> (\<forall>c st. handleGetBlockTemplateLongPoll s longPollID payAddr state \<noteq> (Select c, st))
         \<and> (\<forall>v st. handleGetBlockTemplateLongPoll s longPollID payAddr state
                     \<noteq> (Return v (Some decodeErr), st))"
proof -
  have dec: "isDecodeError decodeErr"
    using assms by (rule decodeLongPollID_error)
  then have np: "\<And>p. decodeErr \<noteq> Panic p"
    by auto
  have eq: "handleGetBlockTemplateLongPoll s longPollID payAddr state =
           (case updateBlockTemplate s payAddr state of
              (Some e, st) \<Rightarrow> (Return Null (Some e), st)
            | (None, st) \<Rightarrow>
                (case blockTemplateResult s st of
                   Inl e \<Rightarrow> (Return Null (Some e), st)
                 | Inr result \<Rightarrow> (Return (Template result) None, st)))"
    using assms(2) np
    by (cases decodeErr)
       (auto simp: handleGetBlockTemplateLongPoll_def blockTemplateOrLongPollChan_def
             split: prod.splits option.splits sum.splits)
  have nosel: "\<forall>c st. handleGetBlockTemplateLongPoll s longPollID payAddr state \<noteq> (Select c, st)"
    unfolding eq by (auto split: prod.splits option.splits sum.splits)
  have noerr: "\<forall>v st. handleGetBlockTemplateLongPoll s longPollID payAddr state
                 \<noteq> (Return v (Some decodeErr), st)"
    unfolding eq using dec
    by (auto split: prod.splits option.splits sum.splits
             dest: updateBlockTemplate_error blockTemplateResult_error)
  from eq nosel noerr show ?thesis
    by blast
qed

theorem handleGetBlockTemplateLongPoll_decode_error_witness:
  "0 < HashSize (Hashes sampleServer)
   \<and> decodeLongPollID (Hashes sampleServer) ''bogus'' = Inl InvalidNumberOfFields
   \<and> (case fst (handleGetBlockTemplateLongPoll sampleServer ''bogus'' (Address ''addr'')
                  newGbtWorkState) of
         Return (Template r) None \<Rightarrow>
           map rtID (gbtTransactions r) = [''c0'', ''t1'', ''t2'']
           \<and> gbtLongPollID r = ''aa-addr-6''
       | _ \<Rightarrow> False)
   \<and> (\<forall>c st. handleGetBlockTemplateLongPoll sampleServer ''bogus'' (Address ''addr'')
                 newGbtWorkState \<noteq> (Select c, st))"
proof -
  have a: "0 < HashSize (Hashes sampleServer)"
    by (simp add: sampleServer_def sampleHashes_def)
  have b: "decodeLongPollID (Hashes sampleServer) ''bogus'' = Inl InvalidNumberOfFields"
    by (simp add: decodeLongPollID_def)
  have c: "(case fst (handleGetBlockTemplateLongPoll sampleServer ''bogus'' (Address ''addr'')
                  newGbtWorkState) of
         Return (Template r) None \<Rightarrow>
           map rtID (gbtTransactions r) = [''c0'', ''t1'', ''t2'']
           \<and> gbtLongPollID r = ''aa-addr-6''
       | _ \<Rightarrow> False)"
    by code_simp
  from handleGetBlockTemplateLongPoll_decode_error [OF a b, of "Address ''addr''" newGbtWorkState]
  have d: "\<forall>c st. handleGetBlockTemplateLongPoll sampleServer ''bogus'' (Address ''addr'')
                 newGbtWorkState \<noteq> (Select c, st)"
    by blast
  from a b c d show ?thesis
    by blast
qed

subsection \<open>The transactions of the reply\<close>

lemma resultTransactions_ids:
  "resultTransactions s tmpl i txIndex txs = Inr rs \<Longrightarrow>
   map rtID rs = map (\<lambda>tx. HashString (Hashes s) (TxID tx)) txs"
  by (induction s tmpl i txIndex txs arbitrary: rs rule: resultTransactions.induct)
     (auto simp: Let_def split: sum.splits if_splits)

lemma set_dependsMap:
  "set (dependsMap m ins dm) = set dm \<union> {idx. \<exists>p \<in> set ins. m p = Some idx}"
  by (induction m ins dm rule: dependsMap.induct) (auto split: option.splits)

lemma distinct_dependsMap:
  "distinct dm \<Longrightarrow> distinct (dependsMap m ins dm)"
  by (induction m ins dm rule: dependsMap.induct) (auto split: option.splits)

lemma txIndexOK_step:
  "txIndexOK pre m \<Longrightarrow> txIndexOK (pre @ [tx]) (m(TxID tx \<mapsto> int (length pre)))"
  unfolding txIndexOK_def
  by (auto simp: nth_append less_Suc_eq dest: spec split: if_splits)

lemma resultTransactions_depends:
  assumes "\<And>ks. distinct ks \<Longrightarrow> distinct (RangeOrder s ks) \<and> set (RangeOrder s ks) = set ks"
  shows "txIndexOK pre m \<Longrightarrow> resultTransactions s tmpl (length pre) m rest = Inr rs \<Longrightarrow>
     j < length rest \<Longrightarrow>
     distinct (rtDepends (rs ! j)) \<and>
     (\<forall>idx \<in> set (rtDepends (rs ! j)).
        0 \<le> idx \<and> idx \<le> int (length pre + j)
        \<and> TxID ((pre @ rest) ! nat idx) \<in> set (TxIn (rest ! j))
        \<and> (idx = int (length pre + j) \<longrightarrow> TxID (rest ! j) \<in> set (TxIn (rest ! j))))"
proof (induction rest arbitrary: pre m rs j)
  case Nil
  then show ?case by simp
next
  case (Cons tx rest)
  let ?m = "m(TxID tx \<mapsto> int (length pre))"
  have ok: "txIndexOK (pre @ [tx]) ?m"
    using Cons.prems(1) by (rule txIndexOK_step)
  from Cons.prems(2) obtain rs' where
    rs: "rs = \<lparr>rtData = (case Serialize tx of Inr b \<Rightarrow> hexEncodeToString b | Inl _ \<Rightarrow> []),
              rtID = HashString (Hashes s) (TxID tx),
              rtDepends = RangeOrder s (dependsMap ?m (TxIn tx) []),
              rtMass = TxMasses tmpl ! length pre, rtFee = Fees tmpl ! length pre\<rparr> # rs'"
    and rec: "resultTransactions s tmpl (length (pre @ [tx])) ?m rest = Inr rs'"
    by (auto simp: Let_def split: sum.splits if_splits)
  show ?case
  proof (cases j)
    case 0
    have d: "distinct (dependsMap ?m (TxIn tx) [])"
      by (simp add: distinct_dependsMap)
    have "\<And>idx. idx \<in> set (dependsMap ?m (TxIn tx) []) \<Longrightarrow>
        0 \<le> idx \<and> idx \<le> int (length pre)
        \<and> TxID ((pre @ tx # rest) ! nat idx) \<in> set (TxIn tx)
        \<and> (idx = int (length pre) \<longrightarrow> TxID tx \<in> set (TxIn tx))"
    proof -
      fix idx assume "idx \<in> set (dependsMap ?m (TxIn tx) [])"
      then obtain p where p: "p \<in> set (TxIn tx)" "?m p = Some idx"
        by (auto simp: set_dependsMap)
      from ok p(2) have i: "0 \<le> idx" "nat idx < length (pre @ [tx])" "TxID ((pre @ [tx]) ! nat idx) = p"
        unfolding txIndexOK_def by blast+
      have "(pre @ tx # rest) ! nat idx = (pre @ [tx]) ! nat idx"
        using i(2) by (auto simp: nth_append)
      with i p show "0 \<le> idx \<and> idx \<le> int (length pre)
        \<and> TxID ((pre @ tx # rest) ! nat idx) \<in> set (TxIn tx)
        \<and> (idx = int (length pre) \<longrightarrow> TxID tx \<in> set (TxIn tx))"
        by (auto simp: nth_append split: if_splits)
    qed
    with d assms 0 rs show ?thesis
      by simp
  next
    case (Suc j')
    with Cons.prems(3) have j': "j' < length rest" by simp
    from Cons.IH [OF ok rec j'] Suc rs show ?thesis
      by simp
  qed
qed


lemma sampleState_template: "template sampleState = Some sampleTemplate"
  by code_simp

lemma sample_reply: "blockTemplateResult sampleServer sampleState = Inr sampleReply"
  by code_simp

lemma resultTransactions_data:
  "resultTransactions s tmpl i txIndex txs = Inr rs \<Longrightarrow>
   map (\<lambda>rt. Inr (rtData rt)) rs = map (\<lambda>tx. map_sum id hexEncodeToString (Serialize tx)) txs"
  by (induction s tmpl i txIndex txs arbitrary: rs rule: resultTransactions.induct)
     (auto simp: Let_def split: sum.splits if_splits)

text \<open>
  C2. The claim is that the reply leaves out the coinbase, the transaction at index 0, and
  holds exactly the others. The loop of \<^verbatim>\<open>blockTemplateResult\<close> does not skip index
  0: whenever a reply is produced, its transactions are, in order, the ids and the
  serializations of all transactions of the template, the coinbase first, and there are as
  many of them.
\<close>

theorem blockTemplateResult_keeps_coinbase:
  assumes "template state = Some tmpl" and "blockTemplateResult s state = Inr r"
  shows "map rtID (gbtTransactions r)
           = map (\<lambda>tx. HashString (Hashes s) (TxID tx)) (Transactions (Block tmpl))
         \<and> map (\<lambda>rt. Inr (rtData rt)) (gbtTransactions r)
           = map (\<lambda>tx. map_sum id hexEncodeToString (Serialize tx)) (Transactions (Block tmpl))
         \<and> length (gbtTransactions r) = length (Transactions (Block tmpl))
         \<and> Transactions (Block tmpl) \<noteq> []"
proof -
  from assms have rt: "resultTransactions s tmpl 0 Map.empty (Transactions (Block tmpl))
                     = Inr (gbtTransactions r)"
    and ne: "Transactions (Block tmpl) \<noteq> []"
    by (auto simp: blockTemplateResult_def Let_def split: if_splits sum.splits)
  from resultTransactions_ids [OF rt] resultTransactions_data [OF rt] ne
  show ?thesis
    by (metis length_map)
qed

theorem blockTemplateResult_keeps_coinbase_witness:
  "template sampleState = Some sampleTemplate
   \<and> blockTemplateResult sampleServer sampleState = Inr sampleReply
   \<and> map rtID (gbtTransactions sampleReply) = [''c0'', ''t1'', ''t2'']
   \<and> map TxID (Transactions (Block sampleTemplate)) = [''c0'', ''t1'', ''t2'']"
  using blockTemplateResult_keeps_coinbase [OF sampleState_template sample_reply]
    sampleState_template sample_reply
  by (simp add: sampleServer_def sampleHashes_def sampleTemplate_def sampleBlock_def sampleReply_def)

text \<open>
  C3, as stated, asks for sorted dependency lists. The list is filled by a
  \<^verbatim>\<open>range\<close> over a Go map and never sorted: where that visits the key 1 before the
  key 0, the third transaction of the sample reply depends on \<open>[1, 0]\<close>.
\<close>

theorem blockTemplateResult_depends_unsorted:
  "blockTemplateResult sampleServer sampleState = Inr sampleReply
   \<and> rtDepends (gbtTransactions sampleReply ! 2) = [1, 0]
   \<and> \<not> sorted (rtDepends (gbtTransactions sampleReply ! 2))"
  using sample_reply by (simp add: sampleReply_def)

text \<open>
  C3, amended. For every transaction of the reply none of whose inputs names the
  transaction's own id, the dependency list has no duplicates (its order is that of the
  range over the map, any rearrangement of the keys), and each entry is a 0-based index
  into the transactions of the same reply, smaller than the transaction's own index,
  of a transaction whose id is the previous-outpoint transaction id of one of the inputs.
\<close>

theorem blockTemplateResult_depends:
  assumes "\<And>ks. distinct ks \<Longrightarrow> distinct (RangeOrder s ks) \<and> set (RangeOrder s ks) = set ks"
    and "template state = Some tmpl"
    and "blockTemplateResult s state = Inr r"
    and "i < length (gbtTransactions r)"
    and "TxID (Transactions (Block tmpl) ! i) \<notin> set (TxIn (Transactions (Block tmpl) ! i))"
  shows "distinct (rtDepends (gbtTransactions r ! i))
         \<and> (\<forall>idx \<in> set (rtDepends (gbtTransactions r ! i)).
               0 \<le> idx \<and> idx < int i
               \<and> (\<exists>p \<in> set (TxIn (Transactions (Block tmpl) ! i)).
                     rtID (gbtTransactions r ! nat idx) = HashString (Hashes s) p))"
proof -
  let ?txs = "Transactions (Block tmpl)"
  from assms(2,3) have rt: "resultTransactions s tmpl (length []) Map.empty ?txs
                     = Inr (gbtTransactions r)"
    by (auto simp: blockTemplateResult_def Let_def split: if_splits sum.splits)
  have ids: "map rtID (gbtTransactions r) = map (\<lambda>tx. HashString (Hashes s) (TxID tx)) ?txs"
    using rt by (simp add: resultTransactions_ids)
  then have len: "length (gbtTransactions r) = length ?txs"
    by (metis length_map)
  with assms(4) have i: "i < length ?txs"
    by simp
  have ok: "txIndexOK [] Map.empty"
    by (simp add: txIndexOK_def)
  note dep = resultTransactions_depends [OF assms(1) ok rt i]
  have "\<And>idx. idx \<in> set (rtDepends (gbtTransactions r ! i)) \<Longrightarrow>
          0 \<le> idx \<and> idx < int i
          \<and> (\<exists>p \<in> set (TxIn (?txs ! i)). rtID (gbtTransactions r ! nat idx) = HashString (Hashes s) p)"
  proof -
    fix idx
    assume m: "idx \<in> set (rtDepends (gbtTransactions r ! i))"
    with dep have a: "0 \<le> idx" "idx \<le> int i" "TxID (?txs ! nat idx) \<in> set (TxIn (?txs ! i))"
      "idx = int i \<longrightarrow> TxID (?txs ! i) \<in> set (TxIn (?txs ! i))"
      by auto
    with assms(5) have lt: "idx < int i"
      by force
    with a(1) i have n: "nat idx < length ?txs"
      by linarith
    have "rtID (gbtTransactions r ! nat idx) = map rtID (gbtTransactions r) ! nat idx"
      using n len by simp
    also have "\<dots> = HashString (Hashes s) (TxID (?txs ! nat idx))"
      using n by (simp add: ids)
    finally show "0 \<le> idx \<and> idx < int i
          \<and> (\<exists>p \<in> set (TxIn (?txs ! i)). rtID (gbtTransactions r ! nat idx) = HashString (Hashes s) p)"
      using a(1,3) lt by blast
  qed
  with dep show ?thesis
    by blast
qed

theorem blockTemplateResult_depends_witness:
  "template sampleState = Some sampleTemplate
   \<and> blockTemplateResult sampleServer sampleState = Inr sampleReply
   \<and> 2 < length (gbtTransactions sampleReply)
   \<and> TxID (Transactions (Block sampleTemplate) ! 2) \<notin> set (TxIn (Transactions (Block sampleTemplate) ! 2))
   \<and> rtDepends (gbtTransactions sampleReply ! 2) = [1, 0]
   \<and> distinct (rtDepends (gbtTransactions sampleReply ! 2))
   \<and> (\<exists>p. p \<in> set (TxIn (Transactions (Block sampleTemplate) ! 2))
            \<and> rtID (gbtTransactions sampleReply ! nat 1) = HashString (Hashes sampleServer) p)"
proof -
  have a: "\<And>ks. distinct ks \<Longrightarrow>
             distinct (RangeOrder sampleServer ks) \<and> set (RangeOrder sampleServer ks) = set ks"
    by (simp add: sampleServer_def)
  have d: "2 < length (gbtTransactions sampleReply)"
    by (simp add: sampleReply_def)
  have e: "TxID (Transactions (Block sampleTemplate) ! 2)
             \<notin> set (TxIn (Transactions (Block sampleTemplate) ! 2))"
    by (simp add: sampleTemplate_def sampleBlock_def)
  have f: "rtDepends (gbtTransactions sampleReply ! 2) = [1, 0]"
    by (simp add: sampleReply_def)
  note g = blockTemplateResult_depends [OF a sampleState_template sample_reply d e]
  from g have h: "distinct (rtDepends (gbtTransactions sampleReply ! 2))"
    by blast
  from g f have i: "\<exists>p. p \<in> set (TxIn (Transactions (Block sampleTemplate) ! 2))
            \<and> rtID (gbtTransactions sampleReply ! nat 1) = HashString (Hashes sampleServer) p"
    by (metis list.set_intros(1))
  from sampleState_template sample_reply d e f h i show ?thesis
    by blast
qed

subsection \<open>Notifying the long pollers\<close>

lemma closeAll_ok:
  "distinct cs \<Longrightarrow> set cs \<inter> set closed = {} \<Longrightarrow>
   \<exists>cl. closeAll cs closed = Inr cl \<and> set cl = set closed \<union> set cs"
proof (induction cs arbitrary: closed)
  case Nil
  then show ?case by simp
next
  case (Cons c cs)
  from Cons.prems have "distinct cs" "set cs \<inter> set (c # closed) = {}" "c \<notin> set closed"
    by auto
  with Cons.IH [of "c # closed"] show ?case
    by auto
qed

lemma allChans_Cons: "allChans (entry # nm) = map snd (snd entry) @ allChans nm"
  by (simp add: allChans_def)

lemma allChans_Nil: "allChans [] = []"
  by (simp add: allChans_def)

lemma set_allChans:
  "set (allChans nm) = {c. \<exists>k chs ts. (k, chs) \<in> set nm \<and> (ts, c) \<in> set chs}"
proof -
  have "set (allChans nm) = (\<Union>entry \<in> set nm. snd ` set (snd entry))"
    by (simp add: allChans_def)
  also have "\<dots> = {c. \<exists>k chs ts. (k, chs) \<in> set nm \<and> (ts, c) \<in> set chs}"
    by force
  finally show ?thesis .
qed

lemma notifyOtherTips_ok:
  "distinct (allChans nm) \<Longrightarrow> set (allChans nm) \<inter> set closed = {} \<Longrightarrow>
   \<exists>cl. notifyOtherTips cur nm closed = Inr (filter (\<lambda>entry. fst entry = cur) nm, cl)
        \<and> set cl = set closed \<union> set (allChans (filter (\<lambda>entry. fst entry \<noteq> cur) nm))"
proof (induction nm arbitrary: closed)
  case Nil
  then show ?case by (simp add: allChans_Nil)
next
  case (Cons entry nm)
  obtain k chs where entry: "entry = (k, chs)"
    by (cases entry)
  from Cons.prems have d: "distinct (map snd chs)" "distinct (allChans nm)"
    and i: "set (map snd chs) \<inter> set (allChans nm) = {}"
      "set (map snd chs) \<inter> set closed = {}" "set (allChans nm) \<inter> set closed = {}"
    by (auto simp: allChans_Cons entry)
  show ?case
  proof (cases "k = cur")
    case True
    with Cons.IH [OF d(2) i(3)] show ?thesis
      by (auto simp: entry)
  next
    case False
    from closeAll_ok [OF d(1) i(2)] obtain cl1
      where cl1: "closeAll (map snd chs) closed = Inr cl1" "set cl1 = set closed \<union> set (map snd chs)"
      by blast
    with i have "set (allChans nm) \<inter> set cl1 = {}"
      by auto
    from Cons.IH [OF d(2) this] cl1 False show ?thesis
      by (auto simp: entry allChans_Cons)
  qed
qed

lemma notifyOlder_ok:
  "distinct (map snd chs) \<Longrightarrow> set (map snd chs) \<inter> set closed = {} \<Longrightarrow>
   \<exists>cl. notifyOlder u chs closed = Inr (filter (\<lambda>entry. \<not> fst entry < u) chs, cl)
        \<and> set cl = set closed \<union> set (map snd (filter (\<lambda>entry. fst entry < u) chs))"
proof (induction chs arbitrary: closed)
  case Nil
  then show ?case by simp
next
  case (Cons entry chs)
  obtain ts c where entry: "entry = (ts, c)"
    by (cases entry)
  from Cons.prems have d: "distinct (map snd chs)" "c \<notin> set closed" "c \<notin> set (map snd chs)"
    and i: "set (map snd chs) \<inter> set closed = {}"
    by (auto simp: entry)
  show ?case
  proof (cases "ts < u")
    case True
    from d i have "set (map snd chs) \<inter> set (c # closed) = {}"
      by auto
    from Cons.IH [OF d(1) this] True d(2) show ?thesis
      by (auto simp: entry)
  next
    case False
    with Cons.IH [OF d(1) i] show ?thesis
      by (auto simp: entry)
  qed
qed

lemma filter_key:
  "distinct (map fst nm) \<Longrightarrow>
   filter (\<lambda>entry. fst entry = k) nm = (case map_of nm k of None \<Rightarrow> [] | Some v \<Rightarrow> [(k, v)])"
proof (induction nm)
  case Nil
  then show ?case by simp
next
  case (Cons entry nm)
  then have "fst entry = k \<Longrightarrow> map_of nm k = None"
    by (auto simp: map_of_eq_None_iff)
  with Cons show ?case
    by (cases entry) (auto split: option.splits)
qed

lemma allChans_filter_disjoint:
  "distinct (allChans nm) \<Longrightarrow>
   set (allChans (filter P nm)) \<inter> set (allChans (filter (\<lambda>entry. \<not> P entry) nm)) = {}"
proof (induction nm)
  case Nil
  then show ?case by (simp add: allChans_Nil)
next
  case (Cons entry nm)
  have sub: "\<And>Q. set (allChans (filter Q nm)) \<subseteq> set (allChans nm)"
    by (auto simp: set_allChans)
  from Cons.prems have "set (map snd (snd entry)) \<inter> set (allChans nm) = {}" "distinct (allChans nm)"
    by (auto simp: allChans_Cons)
  with Cons.IH sub [of P] sub [of "\<lambda>entry. \<not> P entry"] show ?case
    by (auto simp: allChans_Cons)
qed

lemma allChans_filter_subset: "set (allChans (filter P nm)) \<subseteq> set (allChans nm)"
  by (auto simp: set_allChans)

lemma distinct_allChans_filter: "distinct (allChans nm) \<Longrightarrow> distinct (allChans (filter P nm))"
proof (induction nm)
  case Nil
  then show ?case by (simp add: allChans_Nil)
next
  case (Cons entry nm)
  with allChans_filter_subset [of P nm] show ?case
    by (auto simp: allChans_Cons)
qed

lemma notifyLongPollers_run:
  assumes wf: "wfChannels state"
  shows "\<exists>state'. notifyLongPollers d tips t state = Inr state'
     \<and> notifyMap state' =
         (case map_of (notifyMap state) (JoinHashesStrings d tips []) of
            None \<Rightarrow> []
          | Some chs \<Rightarrow>
              if IsZero t then [(JoinHashesStrings d tips [], chs)]
              else if filter (\<lambda>entry. \<not> fst entry < UnixSeconds t) chs = [] then []
              else [(JoinHashesStrings d tips [],
                     filter (\<lambda>entry. \<not> fst entry < UnixSeconds t) chs)])
     \<and> set (chanClosed state') =
         set (chanClosed state)
         \<union> {c. \<exists>k chs ts. (k, chs) \<in> set (notifyMap state) \<and> (ts, c) \<in> set chs
                  \<and> (k \<noteq> JoinHashesStrings d tips []
                       \<or> (\<not> IsZero t \<and> ts < UnixSeconds t))}
     \<and> state' = state\<lparr>notifyMap := notifyMap state', chanClosed := chanClosed state'\<rparr>"
proof -
  let ?cur = "JoinHashesStrings d tips []"
  let ?nm = "notifyMap state"
  let ?u = "UnixSeconds t"
  let ?others = "filter (\<lambda>entry. fst entry \<noteq> ?cur) ?nm"
  let ?mine = "filter (\<lambda>entry. fst entry = ?cur) ?nm"
  from wf have dk: "distinct (map fst ?nm)" and dc: "distinct (allChans ?nm)"
    and op: "set (allChans ?nm) \<inter> set (chanClosed state) = {}"
    by (auto simp: wfChannels_def list_all_iff)
  from notifyOtherTips_ok [OF dc op, of ?cur] obtain cl1 where
    s1: "notifyOtherTips ?cur ?nm (chanClosed state) = Inr (?mine, cl1)"
    and c1: "set cl1 = set (chanClosed state) \<union> set (allChans ?others)"
    by blast
  have mine: "?mine = (case map_of ?nm ?cur of None \<Rightarrow> [] | Some v \<Rightarrow> [(?cur, v)])"
    using dk by (rule filter_key)
  have others: "set (allChans ?others)
                  = {c. \<exists>k chs ts. (k, chs) \<in> set ?nm \<and> (ts, c) \<in> set chs \<and> k \<noteq> ?cur}"
    by (auto simp: set_allChans)
  show ?thesis
  proof (cases "map_of ?nm ?cur")
    case None
    then have nomine: "\<And>chs. (?cur, chs) \<notin> set ?nm"
      by (metis map_of_eq_None_iff fst_conv image_eqI)
    have "{c. \<exists>k chs ts. (k, chs) \<in> set ?nm \<and> (ts, c) \<in> set chs
                  \<and> (k \<noteq> ?cur \<or> (\<not> IsZero t \<and> ts < ?u))}
          = {c. \<exists>k chs ts. (k, chs) \<in> set ?nm \<and> (ts, c) \<in> set chs \<and> k \<noteq> ?cur}"
      using nomine by blast
    with None s1 c1 mine others show ?thesis
      by (simp add: notifyLongPollers_def Let_def)
  next
    case (Some chs)
    then have inm: "(?cur, chs) \<in> set ?nm"
      by (rule map_of_SomeD)
    have uniq: "\<And>chs'. (?cur, chs') \<in> set ?nm \<Longrightarrow> chs' = chs"
      using dk Some by (metis map_of_is_SomeI option.inject)
    have m1: "?mine = [(?cur, chs)]"
      using mine Some by simp
    show ?thesis
    proof (cases "IsZero t")
      case True
      have "{c. \<exists>k chs ts. (k, chs) \<in> set ?nm \<and> (ts, c) \<in> set chs
                  \<and> (k \<noteq> ?cur \<or> (\<not> IsZero t \<and> ts < ?u))}
          = {c. \<exists>k chs ts. (k, chs) \<in> set ?nm \<and> (ts, c) \<in> set chs \<and> k \<noteq> ?cur}"
        using True by blast
      with True Some s1 c1 m1 others show ?thesis
        by (simp add: notifyLongPollers_def Let_def)
    next
      case False
      have ac: "allChans ?mine = map snd chs"
        by (simp add: m1 allChans_Cons allChans_Nil)
      have d2: "distinct (map snd chs)"
        using distinct_allChans_filter [OF dc, of "\<lambda>entry. fst entry = ?cur"] ac by simp
      have "set (map snd chs) \<inter> set (allChans ?others) = {}"
        using allChans_filter_disjoint [OF dc, of "\<lambda>entry. fst entry = ?cur"] ac by simp
      moreover have "set (map snd chs) \<subseteq> set (allChans ?nm)"
        using allChans_filter_subset [of "\<lambda>entry. fst entry = ?cur" ?nm] ac by simp
      ultimately have i2: "set (map snd chs) \<inter> set cl1 = {}"
        using op c1 by auto
      from notifyOlder_ok [OF d2 i2, of ?u] obtain cl2 where
        s2: "notifyOlder ?u chs cl1 = Inr (filter (\<lambda>entry. \<not> fst entry < ?u) chs, cl2)"
        and c2: "set cl2 = set cl1 \<union> set (map snd (filter (\<lambda>entry. fst entry < ?u) chs))"
        by blast
      have older: "set (map snd (filter (\<lambda>entry. fst entry < ?u) chs))
                     = {c. \<exists>ts. (ts, c) \<in> set chs \<and> ts < ?u}"
        by force
      have fired: "set cl2 = set (chanClosed state)
         \<union> {c. \<exists>k chs ts. (k, chs) \<in> set ?nm \<and> (ts, c) \<in> set chs
                  \<and> (k \<noteq> ?cur \<or> (\<not> IsZero t \<and> ts < ?u))}"
      proof -
        have "{c. \<exists>k chs ts. (k, chs) \<in> set ?nm \<and> (ts, c) \<in> set chs
                  \<and> (k \<noteq> ?cur \<or> (\<not> IsZero t \<and> ts < ?u))}
              = {c. \<exists>k chs ts. (k, chs) \<in> set ?nm \<and> (ts, c) \<in> set chs \<and> k \<noteq> ?cur}
                \<union> {c. \<exists>ts. (ts, c) \<in> set chs \<and> ts < ?u}"
          (is "?L = ?A \<union> ?B")
        proof
          show "?L \<subseteq> ?A \<union> ?B"
            using uniq by blast
          show "?A \<union> ?B \<subseteq> ?L"
            using inm False by blast
        qed
        with c2 c1 others older show ?thesis
          by (simp add: Un_assoc)
      qed
      from False Some s1 s2 m1 fired show ?thesis
        by (simp add: notifyLongPollers_def Let_def)
    qed
  qed
qed


lemma map_of_entry:
  "distinct (map fst al) \<Longrightarrow> (map_of al k = Some v) = ((k, v) \<in> set al)"
  by (auto intro: map_of_is_SomeI dest: map_of_SomeD)

text \<open>
  C5. When \<^verbatim>\<open>notifyLongPollers\<close> runs with the current tip hashes and a last-update
  time, on a state whose channels are in order (every reachable state is, by
  \<open>reachable_wfChannels\<close> below), it returns normally, and: no fingerprint
  other than the current one is left in the map; under the current fingerprint the map is
  as before when the time is the zero value, and otherwise keeps exactly the channels
  whose registration time is not below the time's Unix seconds, the entry being removed
  when none is kept; the channels closed by the call are those registered under another
  fingerprint and, when the time is not zero, those under the current fingerprint whose
  registration time is below the time's Unix seconds; nothing else of the state changes.
\<close>

theorem notifyLongPollers_fires:
  assumes wf: "wfChannels state"
  shows "\<exists>state'. notifyLongPollers d tips t state = Inr state'
     \<and> (\<forall>k. k \<noteq> JoinHashesStrings d tips [] \<longrightarrow> map_of (notifyMap state') k = None)
     \<and> map_of (notifyMap state') (JoinHashesStrings d tips []) =
         (case map_of (notifyMap state) (JoinHashesStrings d tips []) of
            None \<Rightarrow> None
          | Some chs \<Rightarrow>
              if IsZero t then Some chs
              else if filter (\<lambda>entry. \<not> fst entry < UnixSeconds t) chs = [] then None
              else Some (filter (\<lambda>entry. \<not> fst entry < UnixSeconds t) chs))
     \<and> (\<forall>c. c \<in> set (chanClosed state') \<longleftrightarrow>
              c \<in> set (chanClosed state)
              \<or> (\<exists>k chs ts. map_of (notifyMap state) k = Some chs \<and> map_of chs ts = Some c
                    \<and> (k \<noteq> JoinHashesStrings d tips []
                         \<or> (\<not> IsZero t \<and> ts < UnixSeconds t))))
     \<and> state' = state\<lparr>notifyMap := notifyMap state', chanClosed := chanClosed state'\<rparr>"
proof -
  let ?cur = "JoinHashesStrings d tips []"
  let ?nm = "notifyMap state"
  from notifyLongPollers_run [OF wf, of d tips t] obtain state' where
    run: "notifyLongPollers d tips t state = Inr state'"
    and nm': "notifyMap state' =
         (case map_of ?nm ?cur of
            None \<Rightarrow> []
          | Some chs \<Rightarrow>
              if IsZero t then [(?cur, chs)]
              else if filter (\<lambda>entry. \<not> fst entry < UnixSeconds t) chs = [] then []
              else [(?cur, filter (\<lambda>entry. \<not> fst entry < UnixSeconds t) chs)])"
    and cl': "set (chanClosed state') =
         set (chanClosed state)
         \<union> {c. \<exists>k chs ts. (k, chs) \<in> set ?nm \<and> (ts, c) \<in> set chs
                  \<and> (k \<noteq> ?cur \<or> (\<not> IsZero t \<and> ts < UnixSeconds t))}"
    and rest: "state' = state\<lparr>notifyMap := notifyMap state', chanClosed := chanClosed state'\<rparr>"
    by blast
  from wf have dk: "distinct (map fst ?nm)"
    and di: "\<And>k chs. (k, chs) \<in> set ?nm \<Longrightarrow> distinct (map fst chs)"
    by (auto simp: wfChannels_def list_all_iff)
  have gone: "\<forall>k. k \<noteq> ?cur \<longrightarrow> map_of (notifyMap state') k = None"
    by (simp add: nm' split: option.splits)
  have cur: "map_of (notifyMap state') ?cur =
         (case map_of ?nm ?cur of
            None \<Rightarrow> None
          | Some chs \<Rightarrow>
              if IsZero t then Some chs
              else if filter (\<lambda>entry. \<not> fst entry < UnixSeconds t) chs = [] then None
              else Some (filter (\<lambda>entry. \<not> fst entry < UnixSeconds t) chs))"
    by (simp add: nm' split: option.splits)
  have reg: "\<And>k chs ts c. (map_of ?nm k = Some chs \<and> map_of chs ts = Some c)
                            = ((k, chs) \<in> set ?nm \<and> (ts, c) \<in> set chs)"
    using dk di by (metis map_of_entry)
  have fired: "\<forall>c. c \<in> set (chanClosed state') \<longleftrightarrow>
              c \<in> set (chanClosed state)
              \<or> (\<exists>k chs ts. map_of ?nm k = Some chs \<and> map_of chs ts = Some c
                    \<and> (k \<noteq> ?cur \<or> (\<not> IsZero t \<and> ts < UnixSeconds t)))"
  proof (intro allI iffI)
    fix c
    assume "c \<in> set (chanClosed state')"
    then show "c \<in> set (chanClosed state)
              \<or> (\<exists>k chs ts. map_of ?nm k = Some chs \<and> map_of chs ts = Some c
                    \<and> (k \<noteq> ?cur \<or> (\<not> IsZero t \<and> ts < UnixSeconds t)))"
      unfolding cl' using reg by blast
  next
    fix c
    assume "c \<in> set (chanClosed state)
              \<or> (\<exists>k chs ts. map_of ?nm k = Some chs \<and> map_of chs ts = Some c
                    \<and> (k \<noteq> ?cur \<or> (\<not> IsZero t \<and> ts < UnixSeconds t)))"
    then show "c \<in> set (chanClosed state')"
      unfolding cl' using reg by blast
  qed
  from run gone cur fired rest show ?thesis
    by blast
qed

theorem notifyLongPollers_fires_witness:
  "wfChannels sampleWaiting
   \<and> notifyMap sampleWaiting = [(''aa'', [(5, 0), (7, 1)]), (''bb'', [(5, 2)])]
   \<and> chanClosed sampleWaiting = []
   \<and> (\<exists>state'. notifyLongPollers sampleHashes [''aa''] 6500 sampleWaiting = Inr state'
         \<and> map_of (notifyMap state') ''bb'' = None
         \<and> map_of (notifyMap state') ''aa'' = Some [(7, 1)]
         \<and> chanClosed state' = [0, 2])"
proof -
  have w: "wfChannels sampleWaiting"
    by code_simp
  have nm: "notifyMap sampleWaiting = [(''aa'', [(5, 0), (7, 1)]), (''bb'', [(5, 2)])]"
    by code_simp
  have cl: "chanClosed sampleWaiting = []"
    by code_simp
  have ev: "map_sum id chanClosed (notifyLongPollers sampleHashes [''aa''] 6500 sampleWaiting)
              = Inr [0, 2]"
    by code_simp
  from notifyLongPollers_fires [OF w, of sampleHashes "[''aa'']" 6500] obtain state' where
    run: "notifyLongPollers sampleHashes [''aa''] 6500 sampleWaiting = Inr state'"
    and gone: "\<forall>k. k \<noteq> JoinHashesStrings sampleHashes [''aa''] [] \<longrightarrow> map_of (notifyMap state') k = None"
    and cur: "map_of (notifyMap state') (JoinHashesStrings sampleHashes [''aa''] []) =
         (case map_of (notifyMap sampleWaiting) (JoinHashesStrings sampleHashes [''aa''] []) of
            None \<Rightarrow> None
          | Some chs \<Rightarrow>
              if IsZero 6500 then Some chs
              else if filter (\<lambda>entry. \<not> fst entry < UnixSeconds 6500) chs = [] then None
              else Some (filter (\<lambda>entry. \<not> fst entry < UnixSeconds 6500) chs))"
    by blast
  from gone have g: "map_of (notifyMap state') ''bb'' = None"
    by (simp add: sampleHashes_def)
  from cur have c: "map_of (notifyMap state') ''aa'' = Some [(7, 1)]"
    by (simp add: sampleHashes_def nm IsZero_def zeroTime_def UnixSeconds_def)
  from ev run have e: "chanClosed state' = [0, 2]"
    by simp
  from w nm cl run g c e show ?thesis
    by blast
qed

subsection \<open>The channel store stays in order\<close>

lemma allChans_append: "allChans (xs @ ys) = allChans xs @ allChans ys"
  by (simp add: allChans_def)

lemma update_new_key: "k \<notin> fst ` set al \<Longrightarrow> AList.update k v al = al @ [(k, v)]"
  by (induction al) auto

lemma update_first_key:
  "k \<notin> fst ` set pre \<Longrightarrow> AList.update k v (pre @ (k, w) # post) = pre @ (k, v) # post"
  by (induction pre) auto

lemma map_of_split:
  "map_of al k = Some v \<Longrightarrow> \<exists>pre post. al = pre @ (k, v) # post \<and> k \<notin> fst ` set pre"
proof (induction al)
  case Nil
  then show ?case by simp
next
  case (Cons entry al)
  show ?case
  proof (cases "fst entry = k")
    case True
    with Cons.prems have "entry # al = [] @ (k, v) # al"
      by (cases entry) auto
    then show ?thesis
      by (metis empty_iff image_empty list.set(1))
  next
    case False
    with Cons.prems have "map_of al k = Some v"
      by (cases entry) auto
    from Cons.IH [OF this] obtain pre post where "al = pre @ (k, v) # post" "k \<notin> fst ` set pre"
      by blast
    with False have "entry # al = (entry # pre) @ (k, v) # post" "k \<notin> fst ` set (entry # pre)"
      by auto
    then show ?thesis
      by blast
  qed
qed

lemma templateUpdateChan_wfChannels:
  assumes wf: "wfChannels state"
  shows "wfChannels (snd (templateUpdateChan d tips lastGen state))"
proof -
  let ?k = "JoinHashesStrings d tips []"
  let ?nm = "notifyMap state"
  let ?c = "chanNext state"
  from wf have dk: "distinct (map fst ?nm)"
    and di: "\<And>entry. entry \<in> set ?nm \<Longrightarrow> distinct (map fst (snd entry))"
    and dc: "distinct (allChans ?nm)"
    and op: "\<And>c. c \<in> set (allChans ?nm) \<Longrightarrow> c \<notin> set (chanClosed state) \<and> c < ?c"
    and cl: "\<And>c. c \<in> set (chanClosed state) \<Longrightarrow> c < ?c"
    by (auto simp: wfChannels_def list_all_iff)
  have fresh: "?c \<notin> set (allChans ?nm)" "?c \<notin> set (chanClosed state)"
    using op [of ?c] cl [of ?c] by auto
  show ?thesis
  proof (cases "map_of ?nm ?k")
    case None
    then have nk: "?k \<notin> fst ` set ?nm"
      by (simp add: map_of_eq_None_iff)
    have nm': "notifyMap (snd (templateUpdateChan d tips lastGen state)) = ?nm @ [(?k, [(lastGen, ?c)])]"
      using None nk by (simp add: templateUpdateChan_def Let_def update_new_key update_first_key)
    have st': "chanClosed (snd (templateUpdateChan d tips lastGen state)) = chanClosed state"
      "chanNext (snd (templateUpdateChan d tips lastGen state)) = Suc ?c"
      using None by (simp_all add: templateUpdateChan_def Let_def)
    show ?thesis
      unfolding wfChannels_def nm' st'
      using dk di dc op cl nk fresh
      by (auto simp: list_all_iff allChans_append allChans_def less_Suc_eq)
  next
    case (Some chs)
    from map_of_split [OF Some] obtain pre post where
      sp: "?nm = pre @ (?k, chs) # post" "?k \<notin> fst ` set pre"
      by blast
    show ?thesis
    proof (cases "map_of chs lastGen")
      case None
      then have nl: "lastGen \<notin> fst ` set chs"
        by (simp add: map_of_eq_None_iff)
      have "notifyMap (snd (templateUpdateChan d tips lastGen state))
              = AList.update ?k (AList.update lastGen ?c chs) ?nm"
        using Some None by (simp add: templateUpdateChan_def Let_def)
      then have nm': "notifyMap (snd (templateUpdateChan d tips lastGen state))
              = pre @ (?k, chs @ [(lastGen, ?c)]) # post"
        using sp nl by (simp add: update_first_key update_new_key)
      have st': "chanClosed (snd (templateUpdateChan d tips lastGen state)) = chanClosed state"
        "chanNext (snd (templateUpdateChan d tips lastGen state)) = Suc ?c"
        using Some None by (simp_all add: templateUpdateChan_def Let_def)
      have ac: "allChans ?nm = allChans pre @ map snd chs @ allChans post"
        by (simp add: sp allChans_append allChans_def)
      have ac': "allChans (pre @ (?k, chs @ [(lastGen, ?c)]) # post)
                   = allChans pre @ (map snd chs @ [?c]) @ allChans post"
        by (simp add: allChans_append allChans_def)
      have dchs: "distinct (map fst chs)"
        using di [of "(?k, chs)"] sp by simp
      have dk': "distinct (map fst (pre @ (?k, chs @ [(lastGen, ?c)]) # post))"
        using dk sp by simp
      have di': "\<And>entry. entry \<in> set (pre @ (?k, chs @ [(lastGen, ?c)]) # post)
                   \<Longrightarrow> distinct (map fst (snd entry))"
        using di sp dchs nl by auto
      have dc': "distinct (allChans pre @ (map snd chs @ [?c]) @ allChans post)"
        using dc fresh(1) unfolding ac by auto
      have op': "\<And>c. c \<in> set (allChans pre @ (map snd chs @ [?c]) @ allChans post)
                   \<Longrightarrow> c \<notin> set (chanClosed state) \<and> c < Suc ?c"
        using op fresh(2) unfolding ac by (auto simp: less_Suc_eq)
      show ?thesis
        unfolding wfChannels_def nm' st' ac'
        using dk' di' dc' op' cl
        by (simp add: list_all_iff less_Suc_eq)
    next
      case (Some c)
      with \<open>map_of ?nm ?k = Some chs\<close> wf show ?thesis
        by (simp add: templateUpdateChan_def Let_def wfChannels_def)
    qed
  qed
qed

lemma notifyLongPollers_wfChannels:
  assumes wf: "wfChannels state" and run: "notifyLongPollers d tips t state = Inr state'"
  shows "wfChannels state'"
proof -
  let ?cur = "JoinHashesStrings d tips []"
  let ?nm = "notifyMap state"
  let ?keep = "\<lambda>entry :: int \<times> chan. \<not> fst entry < UnixSeconds t"
  from wf have dk: "distinct (map fst ?nm)"
    and di: "\<And>entry. entry \<in> set ?nm \<Longrightarrow> distinct (map fst (snd entry))"
    and dc: "distinct (allChans ?nm)"
    and op: "\<And>c. c \<in> set (allChans ?nm) \<Longrightarrow> c \<notin> set (chanClosed state) \<and> c < chanNext state"
    and cl: "\<And>c. c \<in> set (chanClosed state) \<Longrightarrow> c < chanNext state"
    by (auto simp: wfChannels_def list_all_iff)
  from notifyLongPollers_run [OF wf, of d tips t] run have
    nm': "notifyMap state' =
         (case map_of ?nm ?cur of
            None \<Rightarrow> []
          | Some chs \<Rightarrow>
              if IsZero t then [(?cur, chs)]
              else if filter ?keep chs = [] then []
              else [(?cur, filter ?keep chs)])"
    and cl': "set (chanClosed state') =
         set (chanClosed state)
         \<union> {c. \<exists>k chs ts. (k, chs) \<in> set ?nm \<and> (ts, c) \<in> set chs
                  \<and> (k \<noteq> ?cur \<or> (\<not> IsZero t \<and> ts < UnixSeconds t))}"
    and rest: "state' = state\<lparr>notifyMap := notifyMap state', chanClosed := chanClosed state'\<rparr>"
    by auto
  from rest have nx: "chanNext state' = chanNext state"
    by (metis gbtWorkState.select_convs(9) gbtWorkState.surjective gbtWorkState.update_convs(6)
        gbtWorkState.update_convs(8))
  have op2: "\<And>k chs ts c. (k, chs) \<in> set ?nm \<Longrightarrow> (ts, c) \<in> set chs
               \<Longrightarrow> c \<notin> set (chanClosed state) \<and> c < chanNext state"
  proof -
    fix k chs ts c
    assume "(k, chs) \<in> set ?nm" "(ts, c) \<in> set chs"
    then have "c \<in> set (allChans ?nm)"
      unfolding set_allChans by blast
    then show "c \<notin> set (chanClosed state) \<and> c < chanNext state"
      by (rule op)
  qed
  have closed_lt: "\<And>c. c \<in> set (chanClosed state') \<Longrightarrow> c < chanNext state"
    unfolding cl' using cl op2 by blast
  show ?thesis
  proof (cases "map_of ?nm ?cur")
    case None
    with nm' closed_lt show ?thesis
      by (simp add: wfChannels_def nx list_all_iff allChans_Nil)
  next
    case (Some chs)
    then have inm: "(?cur, chs) \<in> set ?nm"
      by (rule map_of_SomeD)
    have uniq: "\<And>chs'. (?cur, chs') \<in> set ?nm \<Longrightarrow> chs' = chs"
      using dk Some by (metis map_of_is_SomeI option.inject)
    from map_of_split [OF Some] obtain pre post where
      sp: "?nm = pre @ (?cur, chs) # post"
      by blast
    have dchs: "distinct (map fst chs)"
      using di [OF inm] by simp
    have dsnd: "distinct (map snd chs)"
      using dc by (simp add: sp allChans_append allChans_Cons)
    have sub: "set (map snd chs) \<subseteq> set (allChans ?nm)"
      by (auto simp: sp allChans_append allChans_Cons)
    have elsewhere: "\<And>k chs' ts c. (k, chs') \<in> set ?nm \<Longrightarrow> (ts, c) \<in> set chs' \<Longrightarrow> k \<noteq> ?cur
                       \<Longrightarrow> c \<notin> snd ` set chs"
    proof
      fix k chs' ts c
      assume a: "(k, chs') \<in> set ?nm" "(ts, c) \<in> set chs'" "k \<noteq> ?cur" "c \<in> snd ` set chs"
      then have "(k, chs') \<in> set pre \<or> (k, chs') \<in> set post"
        by (auto simp: sp)
      with a(2) have "c \<in> set (allChans pre) \<or> c \<in> set (allChans post)"
        by (auto simp: set_allChans)
      with dc a(4) show False
        by (auto simp: sp allChans_append allChans_Cons)
    qed
    have same: "\<And>ts c ts'. (ts, c) \<in> set chs \<Longrightarrow> (ts', c) \<in> set chs \<Longrightarrow> ts' = ts"
      using dsnd by (metis (no_types, opaque_lifting) distinct_map inj_onD snd_conv prod.inject)
    show ?thesis
    proof (cases "IsZero t")
      case True
      have "\<And>c. c \<in> snd ` set chs \<Longrightarrow> c \<notin> set (chanClosed state')"
      proof
        fix c
        assume c: "c \<in> snd ` set chs" "c \<in> set (chanClosed state')"
        with sub op have "c \<notin> set (chanClosed state)"
          by auto
        with c(2) True obtain k chs' ts' where "(k, chs') \<in> set ?nm" "(ts', c) \<in> set chs'"
          "k \<noteq> ?cur"
          unfolding cl' by blast
        from elsewhere [OF this] c(1) show False by simp
      qed
      with True Some nm' closed_lt dchs dsnd op sub show ?thesis
        by (auto simp: wfChannels_def nx list_all_iff allChans_Cons allChans_Nil)
    next
      case False
      have kept: "\<And>c. c \<in> snd ` set (filter ?keep chs) \<Longrightarrow> c \<notin> set (chanClosed state')"
      proof
        fix c
        assume c: "c \<in> snd ` set (filter ?keep chs)" "c \<in> set (chanClosed state')"
        then obtain ts where ts: "(ts, c) \<in> set chs" "\<not> ts < UnixSeconds t"
          by auto
        from c(1) have cin: "c \<in> snd ` set chs"
          by auto
        with sub op have "c \<notin> set (chanClosed state)"
          by auto
        with c(2) obtain k chs' ts' where f: "(k, chs') \<in> set ?nm" "(ts', c) \<in> set chs'"
          "k \<noteq> ?cur \<or> (\<not> IsZero t \<and> ts' < UnixSeconds t)"
          unfolding cl' by blast
        show False
        proof (cases "k = ?cur")
          case True
          with f(1) uniq have "chs' = chs" by simp
          with f(2) ts(1) same have "ts' = ts" by blast
          with f(3) True ts(2) show False by simp
        next
          case False
          from elsewhere [OF f(1) f(2) False] cin show False by simp
        qed
      qed
      have d1: "distinct (map fst (filter ?keep chs))" "distinct (map snd (filter ?keep chs))"
        using dchs dsnd by (simp_all add: distinct_map_filter)
      have lt: "\<And>c. c \<in> snd ` set (filter ?keep chs) \<Longrightarrow> c < chanNext state"
        using sub op by auto
      from False Some nm' closed_lt kept d1 lt show ?thesis
        by (auto simp: wfChannels_def nx list_all_iff allChans_Cons allChans_Nil)
    qed
  qed
qed

lemma updateBlockTemplate_wfChannels:
  assumes "wfChannels state" and "updateBlockTemplate s payAddr state = (err, state')"
  shows "wfChannels state'"
  using assms
  by (auto simp: updateBlockTemplate_def Let_def wfChannels_def
           split: sum.splits if_splits option.splits bool.splits
           dest!: notifyLongPollers_wfChannels [rotated])

text \<open>Every reachable work state has its channel store in order.\<close>

lemma reachable_wfChannels: "reachable state \<Longrightarrow> wfChannels state"
proof (induction rule: reachable.induct)
  case reachable_new
  show ?case
    by (simp add: wfChannels_def newGbtWorkState_def allChans_Nil)
next
  case (reachable_subscribe state d tips lastGen c state')
  with templateUpdateChan_wfChannels [of state d tips lastGen] show ?case
    by simp
next
  case (reachable_notify state d tips t state')
  then show ?case
    by (blast intro: notifyLongPollers_wfChannels)
next
  case (reachable_update state s payAddr err state')
  then show ?case
    by (blast intro: updateBlockTemplate_wfChannels)
qed

subsection \<open>No fingerprint with an empty set\<close>

lemma set_update_subset: "set (AList.update k v al) \<subseteq> insert (k, v) (set al)"
  by (induction al) auto

lemma set_delete_subset: "set (AList.delete k al) \<subseteq> set al"
  by (induction al) auto

lemma update_not_Nil: "AList.update k v al \<noteq> []"
  by (cases al) auto

lemma notifyOtherTips_subset:
  "notifyOtherTips cur nm closed = Inr (nm', closed') \<Longrightarrow> set nm' \<subseteq> set nm"
proof (induction cur nm closed arbitrary: nm' closed' rule: notifyOtherTips.induct)
  case (1 cur closed)
  then show ?case by simp
next
  case (2 cur hashesStr chs rest closed)
  show ?case
  proof (cases "hashesStr \<noteq> cur")
    case True
    with "2.prems" obtain cl1 where "closeAll (map snd chs) closed = Inr cl1"
      "notifyOtherTips cur rest cl1 = Inr (nm', closed')"
      by (auto split: sum.splits)
    with "2.IH"(1) [OF True] show ?thesis
      by auto
  next
    case False
    with "2.prems" obtain rest' where "notifyOtherTips cur rest closed = Inr (rest', closed')"
      "nm' = (hashesStr, chs) # rest'"
      by (auto split: sum.splits)
    with "2.IH"(2) [OF False] show ?thesis
      by auto
  qed
qed

lemma templateUpdateChan_noEmpty:
  assumes "list_all (\<lambda>entry. snd entry \<noteq> []) (notifyMap state)"
  shows "list_all (\<lambda>entry. snd entry \<noteq> [])
           (notifyMap (snd (templateUpdateChan d tips lastGen state)))"
proof -
  let ?k = "JoinHashesStrings d tips []"
  show ?thesis
  proof (cases "map_of (notifyMap state) ?k")
    case None
    have "set (AList.update ?k (AList.update lastGen (chanNext state) [])
                 (AList.update ?k [] (notifyMap state)))
          \<subseteq> insert (?k, AList.update lastGen (chanNext state) []) (set (notifyMap state))"
      by (auto simp: update_triv update_conv' dest!: subsetD [OF set_update_subset])
    with assms None show ?thesis
      by (auto simp: templateUpdateChan_def Let_def list_all_iff)
  next
    case (Some chs)
    show ?thesis
    proof (cases "map_of chs lastGen")
      case None
      let ?v = "AList.update lastGen (chanNext state) chs"
      have nm': "notifyMap (snd (templateUpdateChan d tips lastGen state))
                   = AList.update ?k ?v (notifyMap state)"
        using Some None by (simp add: templateUpdateChan_def Let_def)
      have "\<And>entry. entry \<in> set (AList.update ?k ?v (notifyMap state)) \<Longrightarrow> snd entry \<noteq> []"
      proof -
        fix entry
        assume "entry \<in> set (AList.update ?k ?v (notifyMap state))"
        with set_update_subset [of ?k ?v "notifyMap state"]
        have "entry = (?k, ?v) \<or> entry \<in> set (notifyMap state)"
          by blast
        with assms update_not_Nil [of lastGen "chanNext state" chs] show "snd entry \<noteq> []"
          by (auto simp: list_all_iff)
      qed
      then show ?thesis
        by (simp add: nm' list_all_iff)
    next
      case (Some c)
      with \<open>map_of (notifyMap state) ?k = Some chs\<close> assms show ?thesis
        by (simp add: templateUpdateChan_def Let_def)
    qed
  qed
qed

lemma notifyLongPollers_noEmpty:
  assumes "list_all (\<lambda>entry. snd entry \<noteq> []) (notifyMap state)"
    and "notifyLongPollers d tips t state = Inr state'"
  shows "list_all (\<lambda>entry. snd entry \<noteq> []) (notifyMap state')"
proof -
  let ?cur = "JoinHashesStrings d tips []"
  from assms(2) obtain nm1 cl1 where
    s1: "notifyOtherTips ?cur (notifyMap state) (chanClosed state) = Inr (nm1, cl1)"
    by (auto simp: notifyLongPollers_def Let_def split: sum.splits)
  from notifyOtherTips_subset [OF s1] assms(1)
  have ne1: "\<And>entry. entry \<in> set nm1 \<Longrightarrow> snd entry \<noteq> []"
    by (auto simp: list_all_iff)
  have "\<And>entry. entry \<in> set (notifyMap state') \<Longrightarrow> snd entry \<noteq> []"
  proof -
    fix entry
    assume e: "entry \<in> set (notifyMap state')"
    from assms(2) s1 consider
        "notifyMap state' = nm1"
      | "notifyMap state' = AList.delete ?cur nm1"
      | chs' where "chs' \<noteq> []" "notifyMap state' = AList.update ?cur chs' nm1"
      by (auto simp: notifyLongPollers_def Let_def split: sum.splits if_splits option.splits)
    then show "snd entry \<noteq> []"
    proof cases
      case 1
      with e ne1 show ?thesis by simp
    next
      case 2
      with e set_delete_subset [of ?cur nm1] have "entry \<in> set nm1"
        by auto
      then show ?thesis by (rule ne1)
    next
      case 3
      with e set_update_subset [of ?cur chs' nm1] have "entry = (?cur, chs') \<or> entry \<in> set nm1"
        by auto
      then show ?thesis
      proof
        assume "entry = (?cur, chs')"
        with 3(1) show ?thesis by simp
      next
        assume "entry \<in> set nm1"
        then show ?thesis by (rule ne1)
      qed
    qed
  qed
  then show ?thesis
    by (simp add: list_all_iff)
qed

lemma updateBlockTemplate_noEmpty:
  assumes "list_all (\<lambda>entry. snd entry \<noteq> []) (notifyMap state)"
    and "updateBlockTemplate s payAddr state = (err, state')"
  shows "list_all (\<lambda>entry. snd entry \<noteq> []) (notifyMap state')"
  using assms
  by (auto simp: updateBlockTemplate_def Let_def
           split: sum.splits if_splits option.splits bool.splits
           dest: notifyLongPollers_noEmpty [rotated])

text \<open>
  C9. In every reachable work state the notify map has no fingerprint whose set of
  channels is empty. \<^verbatim>\<open>templateUpdateChan\<close> stores a channel in the set it adds or
  finds, \<^verbatim>\<open>notifyLongPollers\<close> deletes the entry when the set has become empty, and
  \<^verbatim>\<open>updateBlockTemplate\<close> touches the map only through
  \<^verbatim>\<open>notifyLongPollers\<close>: the three lemmas above show that each keeps the invariant.
\<close>

theorem notifyMap_no_empty_set:
  assumes "reachable state"
  shows "list_all (\<lambda>entry. snd entry \<noteq> []) (notifyMap state)
         \<and> map_of (notifyMap state) k \<noteq> Some []"
proof -
  from assms have inv: "list_all (\<lambda>entry. snd entry \<noteq> []) (notifyMap state)"
  proof (induction rule: reachable.induct)
    case reachable_new
    show ?case
      by (simp add: newGbtWorkState_def)
  next
    case (reachable_subscribe state d tips lastGen c state')
    with templateUpdateChan_noEmpty [of state d tips lastGen] show ?case
      by simp
  next
    case (reachable_notify state d tips t state')
    then show ?case
      by (blast intro: notifyLongPollers_noEmpty)
  next
    case (reachable_update state s payAddr err state')
    then show ?case
      by (blast intro: updateBlockTemplate_noEmpty)
  qed
  moreover have "map_of (notifyMap state) k \<noteq> Some []"
  proof
    assume "map_of (notifyMap state) k = Some []"
    then have "(k, []) \<in> set (notifyMap state)"
      by (rule map_of_SomeD)
    with inv show False
      by (auto simp: list_all_iff)
  qed
  ultimately show ?thesis ..
qed


lemma reachable_updateBlockTemplate:
  "reachable state \<Longrightarrow> reachable (snd (updateBlockTemplate s payAddr state))"
  by (metis reachable_update prod.collapse)

lemma reachable_templateUpdateChan:
  "reachable state \<Longrightarrow> reachable (snd (templateUpdateChan d tips lastGen state))"
  by (metis reachable_subscribe prod.collapse)

lemma reachable_sampleWaiting: "reachable sampleWaiting"
  unfolding sampleWaiting_def sampleState_def
  by (intro reachable_templateUpdateChan reachable_updateBlockTemplate reachable_new)

theorem notifyMap_no_empty_set_witness:
  "reachable sampleWaiting
   \<and> notifyMap sampleWaiting = [(''aa'', [(5, 0), (7, 1)]), (''bb'', [(5, 2)])]
   \<and> list_all (\<lambda>entry. snd entry \<noteq> []) (notifyMap sampleWaiting)
   \<and> map_of (notifyMap sampleWaiting) ''aa'' \<noteq> Some []"
proof -
  have nm: "notifyMap sampleWaiting = [(''aa'', [(5, 0), (7, 1)]), (''bb'', [(5, 2)])]"
    by code_simp
  from notifyMap_no_empty_set [OF reachable_sampleWaiting, of "''aa''"] nm reachable_sampleWaiting
  show ?thesis
    by blast
qed

subsection \<open>When a new template is built\<close>

text \<open>
  With a template and a pay address in the state, the condition of
  \<^verbatim>\<open>updateBlockTemplate\<close> holds exactly when the stored tip hashes are nil or differ
  from the DAG's, the pay address differs, or the last transaction update differs and the
  clock is past the generation time by more than \<^verbatim>\<open>gbtRegenerateSeconds\<close>.
\<close>

lemma needNewTemplate_committed:
  assumes "template state = Some tmpl" and "payAddress state = Some stateAddr"
  shows "needNewTemplate s payAddr lastTxUpd state =
           Inr (tipHashes state = None
                \<or> tipHashes state \<noteq> Some (TipHashes s)
                \<or> String stateAddr \<noteq> String payAddr
                \<or> (lastTxUpdate state \<noteq> lastTxUpd
                    \<and> NowRegenerate s > lastGenerated state + 1000 * gbtRegenerateSeconds))"
  using assms
  by (auto simp: needNewTemplate_def AreEqual_def After_def Add_def split: option.splits)

text \<open>
  C4. The claim is that a new template is built when the mempool's last update differs
  from the stored one and at least 60 seconds have passed since the template was
  generated. With the tips and the pay address unchanged, a changed mempool time, and the
  clock exactly 60 seconds after the generation time, \<^verbatim>\<open>updateBlockTemplate\<close> only
  refreshes the stored template (new timestamp, nonce 0, same height and generation
  time); one millisecond later it builds the new one.
\<close>

theorem updateBlockTemplate_at_sixty_seconds:
  "template sampleState = Some sampleTemplate
   \<and> tipHashes sampleState = Some (TipHashes sampleServerLater)
   \<and> payAddress sampleState = Some (Address ''addr'')
   \<and> LastUpdated sampleServerLater \<noteq> lastTxUpdate sampleState
   \<and> \<not> IsZero (LastUpdated sampleServerLater)
   \<and> NowRegenerate sampleServerLater - lastGenerated sampleState = 1000 * gbtRegenerateSeconds
   \<and> updateBlockTemplate sampleServerLater (Address ''addr'') sampleState
       = (None, sampleState\<lparr>template := Some (sampleTemplate\<lparr>Block :=
                  sampleBlock\<lparr>Header := sampleHeader\<lparr>Timestamp := 6000, Nonce := 0\<rparr>\<rparr>\<rparr>)\<rparr>)
   \<and> map_option Height (template (snd (updateBlockTemplate
         (sampleServerLater\<lparr>NowRegenerate := 66001\<rparr>) (Address ''addr'') sampleState))) = Some 10"
  by code_simp

subsection \<open>The handlers stay within the reachable states\<close>

text \<open>
  The handlers and the producers lead from reachable states to reachable states: they
  write the state only through the three operations.
\<close>

lemma reachable_blockTemplateOrLongPollChan:
  assumes "reachable state"
    and "blockTemplateOrLongPollChan s longPollID payAddr state = (res, state')"
  shows "reachable state'"
proof -
  obtain err st where u: "updateBlockTemplate s payAddr state = (err, st)"
    by (cases "updateBlockTemplate s payAddr state")
  with assms(1) have r: "reachable st"
    by (blast intro: reachable_update)
  from assms(2) u have "state' = st
        \<or> (\<exists>tips lastGen c. templateUpdateChan (Hashes s) tips lastGen st = (c, state'))"
    by (auto simp: blockTemplateOrLongPollChan_def Let_def
             split: option.splits sum.splits error.splits prod.splits if_splits)
  with r show ?thesis
    by (blast intro: reachable_subscribe)
qed

lemma reachable_handleGetBlockTemplateLongPoll:
  assumes "reachable state"
    and "handleGetBlockTemplateLongPoll s longPollID payAddr state = (res, state')"
  shows "reachable state'"
proof -
  obtain r st where b: "blockTemplateOrLongPollChan s longPollID payAddr state = (r, st)"
    by (cases "blockTemplateOrLongPollChan s longPollID payAddr state")
  with assms(2) have "state' = st"
    by (auto simp: handleGetBlockTemplateLongPoll_def split: option.splits prod.splits)
  with reachable_blockTemplateOrLongPollChan [OF assms(1) b] show ?thesis
    by simp
qed

lemma reachable_handleGetBlockTemplateRequest:
  assumes "reachable state"
    and "handleGetBlockTemplateRequest s request state = (res, state')"
  shows "reachable state'"
proof -
  from assms(2) have "state' = state
      \<or> (\<exists>longPollID payAddr. handleGetBlockTemplateLongPoll s longPollID payAddr state = (res, state'))
      \<or> (\<exists>payAddr err. updateBlockTemplate s payAddr state = (err, state'))"
    by (auto simp: handleGetBlockTemplateRequest_def
             split: option.splits sum.splits prod.splits if_splits)
  with assms(1) show ?thesis
    by (blast intro: reachable_update reachable_handleGetBlockTemplateLongPoll)
qed

lemma reachable_handleGetBlockTemplate:
  assumes "reachable state"
    and "handleGetBlockTemplate s request state = (res, state')"
  shows "reachable state'"
proof -
  from assms(2) have "state' = state
      \<or> handleGetBlockTemplateRequest s request state = (res, state')"
    by (auto simp: handleGetBlockTemplate_def Let_def
             split: option.splits prod.splits if_splits)
  with assms(1) show ?thesis
    by (blast intro: reachable_handleGetBlockTemplateRequest)
qed

lemma reachable_handleGetBlockTemplateLongPollWake:
  assumes "reachable state"
    and "handleGetBlockTemplateLongPollWake clientClosed s payAddr state = (res, state')"
  shows "reachable state'"
proof -
  from assms(2) have "state' = state
      \<or> (\<exists>err. updateBlockTemplate s payAddr state = (err, state'))"
    by (auto simp: handleGetBlockTemplateLongPollWake_def
             split: option.splits sum.splits prod.splits if_splits)
  with assms(1) show ?thesis
    by (blast intro: reachable_update)
qed

lemma reachable_NotifyBlockAdded:
  "reachable state \<Longrightarrow> NotifyBlockAdded d tips state = Inr state' \<Longrightarrow> reachable state'"
  unfolding NotifyBlockAdded_def by (rule reachable_notify)

lemma reachable_NotifyMempoolTx:
  "reachable state \<Longrightarrow> NotifyMempoolTx d now lastUpdated state = Inr state' \<Longrightarrow> reachable state'"
  by (auto simp: NotifyMempoolTx_def split: option.splits if_splits intro: reachable_notify)

end
